theory Spec2Isabelle
  imports Complex_Main
begin

section \<open>JavaScript values as the bridge sees them\<close>

text \<open>
  Both message handlers start with \<^verbatim>\<open>JSON.parse(raw.toString())\<close>. The parser is a
  builtin; the model starts from its outcome: either it threw (\<open>SyntaxError\<close>) or it
  produced a JSON value. A number is the double the parser made of the numeral: a finite
  value, or an infinity when the numeral is too large for a double (\<^verbatim>\<open>1e309\<close>); the
  parser makes no NaN. Strings are byte strings, an object is the list of its properties
  in order, each key once. Console output is not part of the model.
\<close>

datatype number = Finite rat | PosInfinity | NegInfinity

datatype json =
    JNull
  | JBool bool
  | JNum number
  | JStr string
  | JArr "json list"
  | JObj "(string \<times> json) list"

text \<open>A JavaScript value read out of a parsed frame: \<open>None\<close> is \<^verbatim>\<open>undefined\<close>.\<close>

type_synonym jsval = "json option"

datatype parse_result = SyntaxError | Parsed json

datatype error = TypeError

text \<open>Truthiness, as \<^verbatim>\<open>if (x)\<close>, \<^verbatim>\<open>!x\<close>, \<^verbatim>\<open>&&\<close> and \<^verbatim>\<open>||\<close> test it.\<close>

fun truthy :: "json \<Rightarrow> bool" where
  "truthy JNull = False"
| "truthy (JBool b) = b"
| "truthy (JNum n) = (n \<noteq> Finite 0)"
| "truthy (JStr s) = (s \<noteq> [])"
| "truthy (JArr xs) = True"
| "truthy (JObj kvs) = True"

definition js_truthy :: "jsval \<Rightarrow> bool" where
  "js_truthy v = (case v of None \<Rightarrow> False | Some j \<Rightarrow> truthy j)"

text \<open>
  Reading a property of a value that is neither \<^verbatim>\<open>null\<close> nor \<^verbatim>\<open>undefined\<close>. The
  handlers only read the names \<^verbatim>\<open>type\<close>, \<^verbatim>\<open>audio_event\<close>, \<^verbatim>\<open>audio_base_64\<close>,
  \<^verbatim>\<open>event\<close>, \<^verbatim>\<open>start\<close>, \<^verbatim>\<open>streamSid\<close>, \<^verbatim>\<open>media\<close> and \<^verbatim>\<open>payload\<close>, none of which
  a boolean, number, string or array has.
\<close>

fun own_property :: "json \<Rightarrow> string \<Rightarrow> jsval" where
  "own_property (JObj kvs) p = map_of kvs p"
| "own_property j p = None"

text \<open>\<^verbatim>\<open>v.p\<close>: a TypeError on \<^verbatim>\<open>null\<close> and \<^verbatim>\<open>undefined\<close>.\<close>

definition read_prop :: "jsval \<Rightarrow> string \<Rightarrow> error + jsval" where
  "read_prop v p =
     (case v of
        None \<Rightarrow> Inl TypeError
      | Some JNull \<Rightarrow> Inl TypeError
      | Some j \<Rightarrow> Inr (own_property j p))"

text \<open>\<^verbatim>\<open>v?.p\<close>: \<^verbatim>\<open>undefined\<close> on \<^verbatim>\<open>null\<close> and \<^verbatim>\<open>undefined\<close>.\<close>

definition opt_prop :: "jsval \<Rightarrow> string \<Rightarrow> jsval" where
  "opt_prop v p =
     (case v of
        None \<Rightarrow> None
      | Some JNull \<Rightarrow> None
      | Some j \<Rightarrow> own_property j p)"

text \<open>\<^verbatim>\<open>a || b\<close>.\<close>

definition js_or :: "jsval \<Rightarrow> jsval \<Rightarrow> jsval" where
  "js_or a b = (if js_truthy a then a else b)"

text \<open>
  \<^verbatim>\<open>JSON.stringify\<close>: the frame on the wire is the JSON value the text denotes. A
  number that is not finite is written as \<^verbatim>\<open>null\<close>, wherever it stands in the value;
  everything else is written as it is.
\<close>

primrec JSON_stringify :: "json \<Rightarrow> json" where
  "JSON_stringify JNull = JNull"
| "JSON_stringify (JBool b) = JBool b"
| "JSON_stringify (JNum n) =
     (case n of Finite r \<Rightarrow> JNum (Finite r) | PosInfinity \<Rightarrow> JNull | NegInfinity \<Rightarrow> JNull)"
| "JSON_stringify (JStr s) = JStr s"
| "JSON_stringify (JArr xs) = JArr (map JSON_stringify xs)"
| "JSON_stringify (JObj kvs) = JObj (map (map_prod id JSON_stringify) kvs)"

text \<open>
  An object literal: the keys in the order written. A key whose value is \<^verbatim>\<open>undefined\<close>
  is left out, as \<^verbatim>\<open>JSON.stringify\<close> leaves it out. \<open>stringify_object\<close> is the literal
  handed to \<^verbatim>\<open>JSON.stringify\<close>.
\<close>

fun present_fields :: "(string \<times> jsval) list \<Rightarrow> (string \<times> json) list" where
  "present_fields [] = []"
| "present_fields ((k, None) # kvs) = present_fields kvs"
| "present_fields ((k, Some v) # kvs) = (k, v) # present_fields kvs"

text \<open>A value that \<^verbatim>\<open>JSON.stringify\<close> writes as it is: one without a number that is
  not finite. Every string is one.\<close>

definition written_as_is :: "json \<Rightarrow> bool" where
  "written_as_is j = (JSON_stringify j = j)"

definition object_literal :: "(string \<times> jsval) list \<Rightarrow> json" where
  "object_literal kvs = JObj (present_fields kvs)"

definition stringify_object :: "(string \<times> jsval) list \<Rightarrow> json" where
  "stringify_object kvs = JSON_stringify (object_literal kvs)"

section \<open>Frames the bridge builds\<close>

text \<open>\<^verbatim>\<open>{ type: "start" }\<close>\<close>

definition start_signal :: json where
  "start_signal = stringify_object [(''type'', Some (JStr ''start''))]"

text \<open>\<^verbatim>\<open>{ type: "conversation_config", conversation_config: { audio: { output:
  { encoding: "mulaw", sample_rate: 8000 } } } }\<close>\<close>

definition conversation_config :: json where
  "conversation_config =
     stringify_object
       [(''type'', Some (JStr ''conversation_config'')),
        (''conversation_config'', Some (object_literal
          [(''audio'', Some (object_literal
            [(''output'', Some (object_literal
              [(''encoding'', Some (JStr ''mulaw'')),
               (''sample_rate'', Some (JNum (Finite 8000)))]))]))]))]"

text \<open>\<^verbatim>\<open>{ event: "media", streamSid, media: { payload: msg.audio_event.audio_base_64 } }\<close>\<close>

definition twilioFrame :: "jsval \<Rightarrow> jsval \<Rightarrow> json" where
  "twilioFrame sid payload =
     stringify_object
       [(''event'', Some (JStr ''media'')),
        (''streamSid'', sid),
        (''media'', Some (object_literal [(''payload'', payload)]))]"

text \<open>\<^verbatim>\<open>{ event: "clear", streamSid }\<close>\<close>

definition clearFrame :: "jsval \<Rightarrow> json" where
  "clearFrame sid =
     stringify_object [(''event'', Some (JStr ''clear'')), (''streamSid'', sid)]"

text \<open>\<^verbatim>\<open>{ user_audio_chunk: data.media.payload }\<close>\<close>

definition user_audio_chunk :: "jsval \<Rightarrow> json" where
  "user_audio_chunk payload = stringify_object [(''user_audio_chunk'', payload)]"

section \<open>The session\<close>

text \<open>
  The closure variables of the \<^verbatim>\<open>/media-stream\<close> handler, the ready state of the agent
  socket (which the handlers read), and what the handlers have done to the two sockets
  so far: the frames passed to \<^verbatim>\<open>elevenWs.send\<close> and \<^verbatim>\<open>connection.send\<close>, and the
  number of calls of \<^verbatim>\<open>elevenWs.close()\<close> and \<^verbatim>\<open>connection.socket.close()\<close>.
  \<open>elevenWs = None\<close> is the variable still holding \<^verbatim>\<open>null\<close>.
\<close>

datatype readyState = CONNECTING | OPEN | CLOSING | CLOSED

record session =
  streamSid :: jsval
  elevenWs :: "readyState option"
  twilioStarted :: bool
  elevenOpen :: bool
  convoStarted :: bool
  twilioInboundFrames :: nat
  twilioOutboundFrames :: nat
  agentSent :: "json list"
  callerSent :: "json list"
  agentCloseCalls :: nat
  callerCloseCalls :: nat

text \<open>The state when the handlers are registered: \<^verbatim>\<open>new WebSocket(signedUrl)\<close> has
  just returned, so the agent socket exists and is connecting.\<close>

definition initial :: session where
  "initial =
     \<lparr> streamSid = Some JNull, elevenWs = Some CONNECTING, twilioStarted = False,
       elevenOpen = False, convoStarted = False, twilioInboundFrames = 0,
       twilioOutboundFrames = 0, agentSent = [], callerSent = [],
       agentCloseCalls = 0, callerCloseCalls = 0 \<rparr>"

subsection \<open>The socket library, as far as the handlers use it\<close>

text \<open>
  The \<^verbatim>\<open>ws\<close> package is not part of the repository. \<^verbatim>\<open>send\<close> records the frame;
  on an accepted or open socket it does not throw, and the result type keeps the place
  of the exception that the \<^verbatim>\<open>try\<close> around the audio send would catch.
  \<^verbatim>\<open>close()\<close> starts the closing handshake of an open or connecting socket and does
  nothing on one that is closing or closed.
\<close>

definition elevenWs_send :: "json \<Rightarrow> session \<Rightarrow> session" where
  "elevenWs_send frame s = s\<lparr>agentSent := agentSent s @ [frame]\<rparr>"

definition connection_send :: "json \<Rightarrow> session \<Rightarrow> error + session" where
  "connection_send frame s = Inr (s\<lparr>callerSent := callerSent s @ [frame]\<rparr>)"

fun ws_close :: "readyState \<Rightarrow> readyState" where
  "ws_close CONNECTING = CLOSING"
| "ws_close OPEN = CLOSING"
| "ws_close CLOSING = CLOSING"
| "ws_close CLOSED = CLOSED"

definition elevenWs_close :: "session \<Rightarrow> session" where
  "elevenWs_close s =
     s\<lparr>elevenWs := map_option ws_close (elevenWs s),
       agentCloseCalls := agentCloseCalls s + 1\<rparr>"

section \<open>inbound-calls.js\<close>

text \<open>\<^verbatim>\<open>tryStartConversation\<close>, lines 75 to 88: four guards, each an early return.\<close>

definition tryStartConversation :: "session \<Rightarrow> session" where
  "tryStartConversation s =
     (if convoStarted s then s
      else if \<not> twilioStarted s then s
      else if \<not> js_truthy (streamSid s) then s
      else if elevenWs s = None then s
      else if elevenWs s \<noteq> Some OPEN then s
      else if \<not> elevenOpen s then s
      else elevenWs_send start_signal (s\<lparr>convoStarted := True\<rparr>))"

text \<open>\<^verbatim>\<open>elevenWs.on("open")\<close>, lines 98 to 121.\<close>

definition elevenWs_on_open :: "session \<Rightarrow> session" where
  "elevenWs_on_open s =
     tryStartConversation (elevenWs_send conversation_config (s\<lparr>elevenOpen := True\<rparr>))"

text \<open>
  \<^verbatim>\<open>elevenWs.on("message")\<close>, lines 123 to 176. The first property read,
  \<^verbatim>\<open>msg.type\<close> in the debug condition, throws on \<^verbatim>\<open>null\<close>; after it \<^verbatim>\<open>msg\<close> is known
  not to be \<^verbatim>\<open>null\<close>. The audio send is inside \<^verbatim>\<open>try\<close>, the clear send is not.
\<close>

definition forward_audio :: "jsval \<Rightarrow> session \<Rightarrow> session" where
  "forward_audio payload s =
     (case connection_send (twilioFrame (streamSid s) payload) s of
        Inl e \<Rightarrow> s
      | Inr s' \<Rightarrow> s'\<lparr>twilioOutboundFrames := twilioOutboundFrames s' + 1\<rparr>)"

definition handle_interruption :: "jsval \<Rightarrow> session \<Rightarrow> error + session" where
  "handle_interruption ty s =
     (if ty = Some (JStr ''interruption'') \<and> js_truthy (streamSid s)
      then connection_send (clearFrame (streamSid s)) s
      else Inr s)"

definition elevenWs_on_message :: "parse_result \<Rightarrow> session \<Rightarrow> error + session" where
  "elevenWs_on_message raw s =
     (case raw of
        SyntaxError \<Rightarrow> Inr s
      | Parsed msg \<Rightarrow>
          (case read_prop (Some msg) ''type'' of
             Inl e \<Rightarrow> Inl e
           | Inr ty \<Rightarrow>
               if ty = Some (JStr ''audio'')
                  \<and> js_truthy (opt_prop (own_property msg ''audio_event'') ''audio_base_64'')
               then
                 (if \<not> js_truthy (streamSid s) then Inr s
                  else handle_interruption ty
                         (forward_audio
                            (opt_prop (own_property msg ''audio_event'') ''audio_base_64'') s))
               else handle_interruption ty s))"

text \<open>\<^verbatim>\<open>elevenWs.on("close")\<close> and \<^verbatim>\<open>elevenWs.on("error")\<close>, lines 178 to 184: a log
  line each.\<close>

definition elevenWs_on_close :: "session \<Rightarrow> session" where
  "elevenWs_on_close s = s"

definition elevenWs_on_error :: "session \<Rightarrow> session" where
  "elevenWs_on_error s = s"

text \<open>\<^verbatim>\<open>connection.on("message")\<close>, lines 187 to 233.\<close>

definition forward_media :: "jsval \<Rightarrow> jsval \<Rightarrow> session \<Rightarrow> session" where
  "forward_media ev payload s =
     (if ev = Some (JStr ''media'') then
        (if elevenWs s \<noteq> None \<and> elevenWs s = Some OPEN \<and> js_truthy payload
         then (elevenWs_send (user_audio_chunk payload) s)
                \<lparr>twilioInboundFrames := twilioInboundFrames s + 1\<rparr>
         else s)
      else s)"

definition handle_stop :: "jsval \<Rightarrow> session \<Rightarrow> session" where
  "handle_stop ev s =
     (if ev = Some (JStr ''stop'') then
        (if elevenWs s \<noteq> None \<and> elevenWs s = Some OPEN then elevenWs_close s else s)
      else s)"

definition connection_on_message :: "parse_result \<Rightarrow> session \<Rightarrow> error + session" where
  "connection_on_message raw s =
     (case raw of
        SyntaxError \<Rightarrow> Inr s
      | Parsed data \<Rightarrow>
          (case read_prop (Some data) ''event'' of
             Inl e \<Rightarrow> Inl e
           | Inr ev \<Rightarrow>
               if ev = Some (JStr ''start'') then
                 Inr (tryStartConversation
                        (s\<lparr>streamSid :=
                              js_or (opt_prop (own_property data ''start'') ''streamSid'')
                                    (Some JNull),
                            twilioStarted := True\<rparr>))
               else
                 Inr (handle_stop ev
                        (forward_media ev
                           (opt_prop (own_property data ''media'') ''payload'') s))))"

text \<open>\<^verbatim>\<open>connection.on("close")\<close> and \<^verbatim>\<open>connection.on("error")\<close>, lines 235 to 247.\<close>

definition connection_on_close :: "session \<Rightarrow> session" where
  "connection_on_close s =
     (if elevenWs s \<noteq> None \<and> elevenWs s = Some OPEN then elevenWs_close s else s)"

definition connection_on_error :: "session \<Rightarrow> session" where
  "connection_on_error s =
     (if elevenWs s \<noteq> None \<and> elevenWs s = Some OPEN then elevenWs_close s else s)"

text \<open>
  The \<^verbatim>\<open>catch\<close> of the initialisation, lines 248 to 259. Whether the connection object
  has a \<^verbatim>\<open>socket\<close> property depends on the websocket plugin and is a parameter.
\<close>

definition on_init_failure :: "bool \<Rightarrow> session \<Rightarrow> session" where
  "on_init_failure has_socket s =
     (let s1 = (if elevenWs s \<noteq> None \<and> elevenWs s = Some OPEN then elevenWs_close s else s)
      in if has_socket then s1\<lparr>callerCloseCalls := callerCloseCalls s1 + 1\<rparr> else s1)"

subsection \<open>Events\<close>

text \<open>
  What the two sockets deliver to the registered handlers. The library sets the ready
  state of the agent socket before it emits: \<open>OPEN\<close> before \<^verbatim>\<open>open\<close>, \<open>CLOSED\<close> before
  \<^verbatim>\<open>close\<close>, \<open>CLOSING\<close> before \<^verbatim>\<open>error\<close>. An exception that leaves a handler is not
  caught anywhere in the file: the run ends with it.
\<close>

datatype event =
    AgentOpen
  | AgentMessage parse_result
  | AgentClosed
  | AgentError
  | CallerMessage parse_result
  | CallerClosed
  | CallerError

fun step :: "event \<Rightarrow> session \<Rightarrow> error + session" where
  "step AgentOpen s = Inr (elevenWs_on_open (s\<lparr>elevenWs := Some OPEN\<rparr>))"
| "step (AgentMessage raw) s = elevenWs_on_message raw s"
| "step AgentClosed s = Inr (elevenWs_on_close (s\<lparr>elevenWs := Some CLOSED\<rparr>))"
| "step AgentError s = Inr (elevenWs_on_error (s\<lparr>elevenWs := Some CLOSING\<rparr>))"
| "step (CallerMessage raw) s = connection_on_message raw s"
| "step CallerClosed s = Inr (connection_on_close s)"
| "step CallerError s = Inr (connection_on_error s)"

fun run :: "session \<Rightarrow> event list \<Rightarrow> error + session" where
  "run s [] = Inr s"
| "run s (e # es) = (case step e s of Inl err \<Rightarrow> Inl err | Inr s' \<Rightarrow> run s' es)"

section \<open>The second bridge file (src/unnamed/part_000)\<close>

text \<open>
  The same route without the start gate: only \<^verbatim>\<open>streamSid\<close> and \<^verbatim>\<open>elevenWs\<close> exist,
  so its handlers leave the three flags and the two counters of the record alone.
\<close>

text \<open>\<^verbatim>\<open>elevenWs.on("open")\<close>, lines 68 to 83.\<close>

definition elevenWs_on_open_part0 :: "session \<Rightarrow> session" where
  "elevenWs_on_open_part0 s = elevenWs_send conversation_config s"

text \<open>\<^verbatim>\<open>elevenWs.on("message")\<close>, lines 86 to 120: neither send is inside \<^verbatim>\<open>try\<close>.\<close>

definition elevenWs_on_message_part0 :: "parse_result \<Rightarrow> session \<Rightarrow> error + session" where
  "elevenWs_on_message_part0 raw s =
     (case raw of
        SyntaxError \<Rightarrow> Inr s
      | Parsed msg \<Rightarrow>
          (case read_prop (Some msg) ''type'' of
             Inl e \<Rightarrow> Inl e
           | Inr ty \<Rightarrow>
               (case (if ty = Some (JStr ''audio'')
                         \<and> js_truthy (opt_prop (own_property msg ''audio_event'') ''audio_base_64'')
                         \<and> js_truthy (streamSid s)
                      then connection_send
                             (twilioFrame (streamSid s)
                                (opt_prop (own_property msg ''audio_event'') ''audio_base_64'')) s
                      else Inr s) of
                  Inl e \<Rightarrow> Inl e
                | Inr s1 \<Rightarrow> handle_interruption ty s1)))"

text \<open>\<^verbatim>\<open>connection.on("message")\<close>, lines 131 to 161: \<^verbatim>\<open>data.start.streamSid\<close> is a
  plain property read, and \<^verbatim>\<open>stop\<close> closes whenever the socket variable is set.\<close>

definition forward_media_part0 :: "jsval \<Rightarrow> jsval \<Rightarrow> session \<Rightarrow> session" where
  "forward_media_part0 ev payload s =
     (if ev = Some (JStr ''media'') then
        (if elevenWs s \<noteq> None \<and> elevenWs s = Some OPEN \<and> js_truthy payload
         then elevenWs_send (user_audio_chunk payload) s
         else s)
      else s)"

definition handle_stop_part0 :: "jsval \<Rightarrow> session \<Rightarrow> session" where
  "handle_stop_part0 ev s =
     (if ev = Some (JStr ''stop'') then
        (if elevenWs s \<noteq> None then elevenWs_close s else s)
      else s)"

definition connection_on_message_part0 :: "parse_result \<Rightarrow> session \<Rightarrow> error + session" where
  "connection_on_message_part0 raw s =
     (case raw of
        SyntaxError \<Rightarrow> Inr s
      | Parsed data \<Rightarrow>
          (case read_prop (Some data) ''event'' of
             Inl e \<Rightarrow> Inl e
           | Inr ev \<Rightarrow>
               if ev = Some (JStr ''start'') then
                 (case read_prop (own_property data ''start'') ''streamSid'' of
                    Inl e \<Rightarrow> Inl e
                  | Inr sid \<Rightarrow> Inr (s\<lparr>streamSid := sid\<rparr>))
               else
                 Inr (handle_stop_part0 ev
                        (forward_media_part0 ev
                           (opt_prop (own_property data ''media'') ''payload'') s))))"

text \<open>\<^verbatim>\<open>connection.on("close")\<close> and \<^verbatim>\<open>connection.on("error")\<close>, lines 163 to 171.\<close>

definition connection_on_close_part0 :: "session \<Rightarrow> session" where
  "connection_on_close_part0 s = (if elevenWs s \<noteq> None then elevenWs_close s else s)"

definition connection_on_error_part0 :: "session \<Rightarrow> session" where
  "connection_on_error_part0 s = (if elevenWs s \<noteq> None then elevenWs_close s else s)"

fun step_part0 :: "event \<Rightarrow> session \<Rightarrow> error + session" where
  "step_part0 AgentOpen s = Inr (elevenWs_on_open_part0 (s\<lparr>elevenWs := Some OPEN\<rparr>))"
| "step_part0 (AgentMessage raw) s = elevenWs_on_message_part0 raw s"
| "step_part0 AgentClosed s = Inr (elevenWs_on_close (s\<lparr>elevenWs := Some CLOSED\<rparr>))"
| "step_part0 AgentError s = Inr (elevenWs_on_error (s\<lparr>elevenWs := Some CLOSING\<rparr>))"
| "step_part0 (CallerMessage raw) s = connection_on_message_part0 raw s"
| "step_part0 CallerClosed s = Inr (connection_on_close_part0 s)"
| "step_part0 CallerError s = Inr (connection_on_error_part0 s)"

fun run_part0 :: "session \<Rightarrow> event list \<Rightarrow> error + session" where
  "run_part0 s [] = Inr s"
| "run_part0 s (e # es) =
     (case step_part0 e s of Inl err \<Rightarrow> Inl err | Inr s' \<Rightarrow> run_part0 s' es)"

section \<open>The credential request\<close>

text \<open>
  \<^verbatim>\<open>encodeURIComponent\<close> is a builtin: every byte of the UTF-8 text outside
  \<^verbatim>\<open>A-Z a-z 0-9 - _ . ! ~ * ' ( )\<close> becomes \<^verbatim>\<open>%\<close> and two upper-case hexadecimal digits.
\<close>

definition uriUnreserved :: "char \<Rightarrow> bool" where
  "uriUnreserved c =
     (c \<in> set (''ABCDEFGHIJKLMNOPQRSTUVWXYZabcdefghijklmnopqrstuvwxyz0123456789-_.!~*()''
               @ [CHR 0x27]))"

definition hexDigit :: "nat \<Rightarrow> char" where
  "hexDigit n = ''0123456789ABCDEF'' ! n"

fun encodeURIComponent :: "string \<Rightarrow> string" where
  "encodeURIComponent [] = []"
| "encodeURIComponent (c # cs) =
     (if uriUnreserved c then [c]
      else [CHR ''%'', hexDigit (of_char c div 16), hexDigit (of_char c mod 16)])
     @ encodeURIComponent cs"

text \<open>The address \<^verbatim>\<open>getSignedUrl\<close> fetches: inbound-calls.js lines 17 to 20, and the
  second file's line 18, which interpolates the identifier as it is.\<close>

definition signed_url_endpoint :: string where
  "signed_url_endpoint =
     ''https://api.elevenlabs.io/v1/convai/conversation/get_signed_url?agent_id=''"

definition getSignedUrl_request :: "string \<Rightarrow> string" where
  "getSignedUrl_request agent_id = signed_url_endpoint @ encodeURIComponent agent_id"

definition getSignedUrl_request_part0 :: "string \<Rightarrow> string" where
  "getSignedUrl_request_part0 agent_id = signed_url_endpoint @ agent_id"

text \<open>
  Reading a request address back: the inverse of the escaping, used to state that the
  identifier survives it.
\<close>

definition hexValue :: "char \<Rightarrow> nat" where
  "hexValue c = (if of_char c < (58::nat) then of_char c - 48 else of_char c - 55)"

fun percent_decode :: "string \<Rightarrow> string" where
  "percent_decode (c # h # l # cs) =
     (if c = CHR ''%'' then char_of (16 * hexValue h + hexValue l) # percent_decode cs
      else c # percent_decode (h # l # cs))"
| "percent_decode cs = cs"

section \<open>Predicates on sessions and traces\<close>





text \<open>Nothing has gone to the agent leg while its socket was not open, and the first
  frame that went there is the configuration frame.\<close>

definition config_first :: "session \<Rightarrow> bool" where
  "config_first s =
     (if agentSent s = [] then elevenWs s \<noteq> Some OPEN
      else hd (agentSent s) = conversation_config)"

text \<open>A caller \<^verbatim>\<open>start\<close> frame that carries a stream identifier, and one that does not.\<close>

fun start_with_identifier :: "event \<Rightarrow> bool" where
  "start_with_identifier (CallerMessage (Parsed data)) =
     (own_property data ''event'' = Some (JStr ''start'')
      \<and> js_truthy (opt_prop (own_property data ''start'') ''streamSid''))"
| "start_with_identifier e = False"

fun start_without_identifier :: "event \<Rightarrow> bool" where
  "start_without_identifier (CallerMessage (Parsed data)) =
     (own_property data ''event'' = Some (JStr ''start'')
      \<and> \<not> js_truthy (opt_prop (own_property data ''start'') ''streamSid''))"
| "start_without_identifier e = False"

text \<open>The start signal has gone out once if the gate has fired, and not at all before.\<close>

definition counted :: "session \<Rightarrow> bool" where
  "counted s = (count_list (agentSent s) start_signal = (if convoStarted s then 1 else 0))"

text \<open>Each flag of a session reached by the events \<open>es\<close> has its cause among them.\<close>

definition provenance :: "event list \<Rightarrow> session \<Rightarrow> bool" where
  "provenance es s =
     ((if elevenOpen s then AgentOpen \<in> set es else True)
      \<and> (if js_truthy (streamSid s) then list_ex start_with_identifier es else True)
      \<and> (if convoStarted s then AgentOpen \<in> set es \<and> list_ex start_with_identifier es
         else True)
      \<and> counted s)"

text \<open>
  Events that take a leg down or take the identifier away: a close or an error of either
  leg, a caller \<^verbatim>\<open>stop\<close> frame, and a caller \<^verbatim>\<open>start\<close> frame without identifier.
\<close>

fun disturbs :: "event \<Rightarrow> bool" where
  "disturbs AgentClosed = True"
| "disturbs AgentError = True"
| "disturbs CallerClosed = True"
| "disturbs CallerError = True"
| "disturbs (CallerMessage (Parsed data)) =
     (if own_property data ''event'' = Some (JStr ''stop'') then True
      else start_without_identifier (CallerMessage (Parsed data)))"
| "disturbs e = False"

text \<open>What has happened among the events \<open>es\<close> shows in the session, and the gate has
  fired as soon as its conditions held.\<close>

definition ready :: "event list \<Rightarrow> session \<Rightarrow> bool" where
  "ready es s =
     ((if AgentOpen \<in> set es then elevenOpen s \<and> elevenWs s = Some OPEN else True)
      \<and> (if list_ex start_with_identifier es then twilioStarted s \<and> js_truthy (streamSid s)
         else True)
      \<and> (if elevenOpen s \<and> elevenWs s = Some OPEN \<and> twilioStarted s \<and> js_truthy (streamSid s)
         then convoStarted s else True))"

text \<open>Conversation started implies stream identifier present.\<close>

definition gate_invariant :: "session \<Rightarrow> bool" where
  "gate_invariant s = (if convoStarted s then js_truthy (streamSid s) else True)"

section \<open>JavaScript values: basic facts\<close>

lemma read_prop_own:
  "own_property j p = Some v \<Longrightarrow> read_prop (Some j) q = Inr (own_property j q)"
  by (cases j) (simp_all add: read_prop_def)

lemma read_prop_not_null:
  "j \<noteq> JNull \<Longrightarrow> read_prop (Some j) q = Inr (own_property j q)"
  by (cases j) (simp_all add: read_prop_def)

lemma read_prop_null: "read_prop (Some JNull) q = Inl TypeError"
  by (simp add: read_prop_def)

lemma opt_prop_Some [simp]: "opt_prop (Some j) p = own_property j p"
  by (cases j) (simp_all add: opt_prop_def)

lemma opt_prop_None [simp]: "opt_prop None p = None"
  by (simp add: opt_prop_def)

lemma js_truthy_simps [simp]:
  "js_truthy None = False" "js_truthy (Some j) = truthy j"
  by (simp_all add: js_truthy_def)


lemma read_type:
  assumes "own_property msg ''type'' = Some v"
  shows "read_prop (Some msg) ''type'' = Inr (Some v)"
  using read_prop_own [OF assms, of "''type''"] assms by simp

lemma read_event:
  assumes "own_property data ''event'' = Some v"
  shows "read_prop (Some data) ''event'' = Inr (Some v)"
  using read_prop_own [OF assms, of "''event''"] assms by simp

lemma config_not_start: "conversation_config \<noteq> start_signal"
  by (simp add: conversation_config_def start_signal_def stringify_object_def object_literal_def)

lemma chunk_not_start: "user_audio_chunk p \<noteq> start_signal"
  by (cases p) (simp_all add: user_audio_chunk_def start_signal_def stringify_object_def object_literal_def)

lemma written_as_is_simps [simp]:
  "written_as_is (JStr b)" "written_as_is (JBool c)" "written_as_is JNull"
  "written_as_is (JNum (Finite r))"
  by (simp_all add: written_as_is_def)








section \<open>What the socket calls and the gate leave alone\<close>

lemma elevenWs_send_fields [simp]:
  "streamSid (elevenWs_send f s) = streamSid s"
  "elevenWs (elevenWs_send f s) = elevenWs s"
  "twilioStarted (elevenWs_send f s) = twilioStarted s"
  "elevenOpen (elevenWs_send f s) = elevenOpen s"
  "convoStarted (elevenWs_send f s) = convoStarted s"
  "callerSent (elevenWs_send f s) = callerSent s"
  "agentSent (elevenWs_send f s) = agentSent s @ [f]"
  "agentCloseCalls (elevenWs_send f s) = agentCloseCalls s"
  "callerCloseCalls (elevenWs_send f s) = callerCloseCalls s"
  by (simp_all add: elevenWs_send_def)

lemma elevenWs_close_fields [simp]:
  "streamSid (elevenWs_close s) = streamSid s"
  "twilioStarted (elevenWs_close s) = twilioStarted s"
  "elevenOpen (elevenWs_close s) = elevenOpen s"
  "convoStarted (elevenWs_close s) = convoStarted s"
  "callerSent (elevenWs_close s) = callerSent s"
  "agentSent (elevenWs_close s) = agentSent s"
  "callerCloseCalls (elevenWs_close s) = callerCloseCalls s"
  by (simp_all add: elevenWs_close_def)

lemma tryStart_keeps [simp]:
  "streamSid (tryStartConversation s) = streamSid s"
  "twilioStarted (tryStartConversation s) = twilioStarted s"
  "elevenOpen (tryStartConversation s) = elevenOpen s"
  "elevenWs (tryStartConversation s) = elevenWs s"
  "callerSent (tryStartConversation s) = callerSent s"
  by (simp_all add: tryStartConversation_def)

lemma media_stop_keeps [simp]:
  "streamSid (handle_stop ev (forward_media ev p s)) = streamSid s"
  "twilioStarted (handle_stop ev (forward_media ev p s)) = twilioStarted s"
  "elevenOpen (handle_stop ev (forward_media ev p s)) = elevenOpen s"
  "convoStarted (handle_stop ev (forward_media ev p s)) = convoStarted s"
  by (simp_all add: handle_stop_def forward_media_def)

lemma forward_audio_sid [simp]: "streamSid (forward_audio p s) = streamSid s"
  by (simp add: forward_audio_def connection_send_def)

lemma elevenWs_on_message_agent:
  "elevenWs_on_message raw s = Inr t \<Longrightarrow> agentSent t = agentSent s \<and> elevenWs t = elevenWs s"
  by (auto simp: elevenWs_on_message_def handle_interruption_def forward_audio_def
      connection_send_def split: parse_result.splits sum.splits if_splits)

lemma elevenWs_on_message_part0_agent:
  "elevenWs_on_message_part0 raw s = Inr t \<Longrightarrow>
   agentSent t = agentSent s \<and> elevenWs t = elevenWs s"
  by (auto simp: elevenWs_on_message_part0_def handle_interruption_def
      connection_send_def split: parse_result.splits sum.splits if_splits)

lemma elevenWs_on_message_convo:
  "elevenWs_on_message raw s = Inr t \<Longrightarrow>
   convoStarted t = convoStarted s \<and> elevenOpen t = elevenOpen s
   \<and> twilioStarted t = twilioStarted s \<and> streamSid t = streamSid s"
  by (auto simp: elevenWs_on_message_def handle_interruption_def forward_audio_def
      connection_send_def split: parse_result.splits sum.splits if_splits)



section \<open>Traces\<close>

lemma run_append:
  "run s (es @ fs) = (case run s es of Inl err \<Rightarrow> Inl err | Inr s' \<Rightarrow> run s' fs)"
  by (induction es arbitrary: s) (auto split: sum.splits)

lemma run_snoc:
  "run s (es @ [e]) = Inr t \<Longrightarrow> \<exists>m. run s es = Inr m \<and> step e m = Inr t"
  by (auto simp: run_append split: sum.splits)

lemma run_invariant:
  assumes "run s es = Inr t" and "P s"
      and "\<And>e a b. P a \<Longrightarrow> step e a = Inr b \<Longrightarrow> P b"
  shows "P t"
  using assms(1,2)
proof (induction es arbitrary: s)
  case Nil
  then show ?case by simp
next
  case (Cons e es)
  then show ?case by (auto split: sum.splits intro: assms(3))
qed

lemma run_part0_invariant:
  assumes "run_part0 s es = Inr t" and "P s"
      and "\<And>e a b. P a \<Longrightarrow> step_part0 e a = Inr b \<Longrightarrow> P b"
  shows "P t"
  using assms(1,2)
proof (induction es arbitrary: s)
  case Nil
  then show ?case by simp
next
  case (Cons e es)
  then show ?case by (auto split: sum.splits intro: assms(3))
qed

lemma run_invariant_events:
  assumes "run s es = Inr t" and "P s" and "\<not> list_ex bad es"
      and "\<And>e a b. P a \<Longrightarrow> \<not> bad e \<Longrightarrow> step e a = Inr b \<Longrightarrow> P b"
  shows "P t"
  using assms(1,2,3)
proof (induction es arbitrary: s)
  case Nil
  then show ?case by simp
next
  case (Cons e es)
  then show ?case by (auto split: sum.splits intro: assms(4))
qed


text \<open>The definitions a concrete trace is evaluated with.\<close>

lemmas bridge_defs =
  initial_def tryStartConversation_def elevenWs_on_open_def elevenWs_on_message_def
  forward_audio_def handle_interruption_def elevenWs_on_close_def elevenWs_on_error_def
  connection_on_message_def forward_media_def handle_stop_def connection_on_close_def
  connection_on_error_def elevenWs_send_def connection_send_def elevenWs_close_def
  read_prop_def js_or_def

lemmas part0_defs =
  elevenWs_on_open_part0_def elevenWs_on_message_part0_def connection_on_message_part0_def
  forward_media_part0_def handle_stop_part0_def connection_on_close_part0_def
  connection_on_error_part0_def


section \<open>The start gate\<close>

subsection \<open>inbound-calls.js: the signal goes out once, after both events\<close>

lemma tryStart_counted: "counted s \<Longrightarrow> counted (tryStartConversation s)"
  by (simp add: counted_def tryStartConversation_def)

lemma counted_frame:
  "agentSent t = agentSent s \<Longrightarrow> convoStarted t = convoStarted s \<Longrightarrow> counted s \<Longrightarrow> counted t"
  by (simp add: counted_def)

lemma media_stop_counted: "counted s \<Longrightarrow> counted (handle_stop ev (forward_media ev p s))"
  using chunk_not_start [of p]
  by (auto simp: counted_def handle_stop_def forward_media_def)

lemma connection_on_message_counted:
  assumes "counted s" "connection_on_message raw s = Inr t"
  shows "counted t"
proof -
  have "counted (tryStartConversation (s\<lparr>streamSid := v, twilioStarted := True\<rparr>))" for v
    using assms(1) by (intro tryStart_counted) (simp add: counted_def)
  with assms show ?thesis
    by (auto simp: connection_on_message_def media_stop_counted
        split: parse_result.splits sum.splits if_splits)
qed

lemma step_counted:
  assumes "counted a" "step e a = Inr b"
  shows "counted b"
proof (cases e)
  case AgentOpen
  have "counted (elevenWs_send conversation_config (a\<lparr>elevenWs := Some OPEN, elevenOpen := True\<rparr>))"
    using assms(1) config_not_start by (simp add: counted_def)
  with AgentOpen assms show ?thesis
    by (auto simp: elevenWs_on_open_def intro: tryStart_counted)
next
  case (AgentMessage raw)
  with assms show ?thesis
    by (auto dest: elevenWs_on_message_agent elevenWs_on_message_convo intro: counted_frame)
next
  case (CallerMessage raw)
  with assms show ?thesis by (auto intro: connection_on_message_counted)
qed (use assms in \<open>auto simp: counted_def elevenWs_on_close_def elevenWs_on_error_def
       connection_on_close_def connection_on_error_def split: if_splits\<close>)

lemma tryStart_fires:
  "convoStarted (tryStartConversation s) \<Longrightarrow>
   convoStarted s \<or> (twilioStarted s \<and> js_truthy (streamSid s) \<and> elevenOpen s
                      \<and> elevenWs s = Some OPEN)"
  by (auto simp: tryStartConversation_def split: if_splits)

lemma step_convoStarted:
  assumes "step e a = Inr b" "convoStarted b"
  shows "convoStarted a \<or> (twilioStarted b \<and> js_truthy (streamSid b) \<and> elevenOpen b)"
proof (cases e)
  case AgentOpen
  with assms show ?thesis by (auto simp: elevenWs_on_open_def dest!: tryStart_fires)
next
  case (AgentMessage raw)
  with assms show ?thesis by (auto dest: elevenWs_on_message_convo)
next
  case (CallerMessage raw)
  with assms show ?thesis
    by (auto simp: connection_on_message_def dest!: tryStart_fires
        split: parse_result.splits sum.splits if_splits)
qed (use assms in \<open>auto simp: elevenWs_on_close_def elevenWs_on_error_def
       connection_on_close_def connection_on_error_def split: if_splits\<close>)

lemma step_elevenOpen:
  assumes "step e a = Inr b" "elevenOpen b"
  shows "elevenOpen a \<or> e = AgentOpen"
proof (cases e)
  case (AgentMessage raw)
  with assms show ?thesis by (auto dest: elevenWs_on_message_convo)
next
  case (CallerMessage raw)
  with assms show ?thesis
    by (auto simp: connection_on_message_def split: parse_result.splits sum.splits if_splits)
qed (use assms in \<open>auto simp: elevenWs_on_close_def elevenWs_on_error_def
       connection_on_close_def connection_on_error_def split: if_splits\<close>)

lemma step_streamSid:
  assumes "step e a = Inr b" "js_truthy (streamSid b)"
  shows "js_truthy (streamSid a) \<or> start_with_identifier e"
proof (cases e)
  case AgentOpen
  with assms show ?thesis by (auto simp: elevenWs_on_open_def)
next
  case (AgentMessage raw)
  with assms show ?thesis by (auto dest: elevenWs_on_message_convo)
next
  case (CallerMessage raw)
  show ?thesis
  proof (cases raw)
    case SyntaxError
    with CallerMessage assms show ?thesis by (simp add: connection_on_message_def)
  next
    case (Parsed data)
    show ?thesis
    proof (cases "data = JNull")
      case True
      with Parsed CallerMessage assms show ?thesis
        by (simp add: connection_on_message_def read_prop_null)
    next
      case False
      with Parsed CallerMessage assms show ?thesis
        by (auto simp: connection_on_message_def read_prop_not_null js_or_def
            split: if_splits)
    qed
  qed
qed (use assms in \<open>auto simp: elevenWs_on_close_def elevenWs_on_error_def
       connection_on_close_def connection_on_error_def split: if_splits\<close>)

lemma run_provenance: "run initial es = Inr t \<Longrightarrow> provenance es t"
proof (induction es arbitrary: t rule: rev_induct)
  case Nil
  then show ?case
    by (auto simp: provenance_def initial_def counted_def)
next
  case (snoc e es)
  from run_snoc [OF snoc.prems] obtain m where m: "run initial es = Inr m" "step e m = Inr t"
    by blast
  from snoc.IH [OF m(1)] have pm: "provenance es m" .
  have c: "counted t" using pm m(2) by (auto simp: provenance_def intro: step_counted)
  have o: "AgentOpen \<in> set (es @ [e])" if "elevenOpen t"
    using step_elevenOpen [OF m(2) that] pm by (auto simp: provenance_def split: if_splits)
  have i: "list_ex start_with_identifier (es @ [e])" if "js_truthy (streamSid t)"
    using step_streamSid [OF m(2) that] pm by (auto simp: provenance_def split: if_splits)
  have g: "AgentOpen \<in> set (es @ [e]) \<and> list_ex start_with_identifier (es @ [e])"
    if "convoStarted t"
    using step_convoStarted [OF m(2) that] pm o i
    by (auto simp: provenance_def split: if_splits)
  show ?case
    unfolding provenance_def using c o i g by simp
qed

lemma step_ready:
  assumes "ready es a" "\<not> disturbs e" "step e a = Inr b"
  shows "ready (es @ [e]) b"
proof (cases e)
  case AgentOpen
  with assms show ?thesis
    by (auto simp: ready_def elevenWs_on_open_def tryStartConversation_def split: if_splits)
next
  case (AgentMessage raw)
  with assms elevenWs_on_message_agent [of raw a b] elevenWs_on_message_convo [of raw a b]
  show ?thesis by (auto simp: ready_def split: if_splits)
next
  case (CallerMessage raw)
  show ?thesis
  proof (cases raw)
    case SyntaxError
    with CallerMessage assms show ?thesis
      by (auto simp: ready_def connection_on_message_def split: if_splits)
  next
    case (Parsed data)
    show ?thesis
    proof (cases "data = JNull")
      case True
      with Parsed CallerMessage assms show ?thesis
        by (simp add: connection_on_message_def read_prop_null)
    next
      case False
      then have rd: "read_prop (Some data) ''event'' = Inr (own_property data ''event'')"
        by (rule read_prop_not_null)
      show ?thesis
      proof (cases "own_property data ''event'' = Some (JStr ''start'')")
        case True
        with assms(2) Parsed CallerMessage
        have sid: "js_truthy (opt_prop (own_property data ''start'') ''streamSid'')"
          by (simp split: if_splits)
        from True Parsed CallerMessage assms(3) rd
        have b: "b = tryStartConversation
                      (a\<lparr>streamSid := opt_prop (own_property data ''start'') ''streamSid'',
                         twilioStarted := True\<rparr>)"
          using sid by (simp add: connection_on_message_def js_or_def)
        from assms(1) sid show ?thesis
          unfolding b ready_def Parsed CallerMessage
          by (auto simp: tryStartConversation_def True split: if_splits)
      next
        case notstart: False
        with assms(2) Parsed CallerMessage
        have nostop: "own_property data ''event'' \<noteq> Some (JStr ''stop'')"
          by (simp split: if_splits)
        from notstart Parsed CallerMessage assms(3) rd
        have b: "b = forward_media (own_property data ''event'')
                       (opt_prop (own_property data ''media'') ''payload'') a"
          using nostop by (simp add: connection_on_message_def handle_stop_def)
        have keep: "elevenOpen b = elevenOpen a" "elevenWs b = elevenWs a"
          "twilioStarted b = twilioStarted a" "streamSid b = streamSid a"
          "convoStarted b = convoStarted a"
          unfolding b by (simp_all add: forward_media_def)
        from assms(1) notstart show ?thesis
          unfolding ready_def keep Parsed CallerMessage by (auto split: if_splits)
      qed
    qed
  qed
qed (use assms in auto)

lemma run_ready:
  "run initial es = Inr t \<Longrightarrow> \<not> list_ex disturbs es \<Longrightarrow> ready es t"
proof (induction es arbitrary: t rule: rev_induct)
  case Nil
  then show ?case by (auto simp: ready_def initial_def)
next
  case (snoc e es)
  from run_snoc [OF snoc.prems(1)] obtain m where m: "run initial es = Inr m" "step e m = Inr t"
    by blast
  from snoc.prems(2) have c: "\<not> list_ex disturbs es" "\<not> disturbs e" by auto
  from snoc.IH [OF m(1) c(1)] c(2) m(2) show ?case by (rule step_ready)
qed

lemma gate_fires_on_every_interleaving:
  assumes "run initial es = Inr t" "\<not> list_ex disturbs es"
      and "AgentOpen \<in> set es" "list_ex start_with_identifier es"
  shows "count_list (agentSent t) start_signal = 1"
proof -
  from run_ready [OF assms(1,2)] assms(3,4) have "convoStarted t"
    by (simp add: ready_def)
  with run_provenance [OF assms(1)] show ?thesis
    by (simp add: provenance_def counted_def)
qed

lemma gate_idempotent: "convoStarted s \<Longrightarrow> tryStartConversation s = s"
  by (simp add: tryStartConversation_def)

lemma start_then_open:
  assumes ev: "own_property data ''event'' = Some (JStr ''start'')"
      and st: "own_property data ''start'' = Some start"
      and id: "own_property start ''streamSid'' = Some sid"
      and ts: "truthy sid"
  shows "run initial [CallerMessage (Parsed data), AgentOpen] =
           Inr (initial\<lparr>streamSid := Some sid, elevenWs := Some OPEN, twilioStarted := True,
                 elevenOpen := True, convoStarted := True,
                 agentSent := [conversation_config, start_signal]\<rparr>)"
  using st id ts
  by (simp add: connection_on_message_def read_event [OF ev] js_or_def
      tryStartConversation_def elevenWs_on_open_def elevenWs_send_def initial_def)

lemma open_then_start:
  assumes ev: "own_property data ''event'' = Some (JStr ''start'')"
      and st: "own_property data ''start'' = Some start"
      and id: "own_property start ''streamSid'' = Some sid"
      and ts: "truthy sid"
  shows "run initial [AgentOpen, CallerMessage (Parsed data)] =
           Inr (initial\<lparr>streamSid := Some sid, elevenWs := Some OPEN, twilioStarted := True,
                 elevenOpen := True, convoStarted := True,
                 agentSent := [conversation_config, start_signal]\<rparr>)"
  using st id ts
  by (simp add: connection_on_message_def read_event [OF ev] js_or_def
      tryStartConversation_def elevenWs_on_open_def elevenWs_send_def initial_def)

lemma gate_fires_exactly_once:
  "(\<forall>t. run initial es = Inr t \<longrightarrow>
      count_list (agentSent t) start_signal = (if convoStarted t then 1 else 0)
      \<and> (start_signal \<in> set (agentSent t) \<longrightarrow>
           AgentOpen \<in> set es \<and> list_ex start_with_identifier es))
   \<and> (\<forall>data start sid.
        own_property data ''event'' = Some (JStr ''start'')
        \<and> own_property data ''start'' = Some start
        \<and> own_property start ''streamSid'' = Some sid \<and> truthy sid \<longrightarrow>
        (\<exists>t. run initial [CallerMessage (Parsed data), AgentOpen] = Inr t
             \<and> agentSent t = [conversation_config, start_signal])
        \<and> (\<exists>t. run initial [AgentOpen, CallerMessage (Parsed data)] = Inr t
             \<and> agentSent t = [conversation_config, start_signal]))
   \<and> (convoStarted s \<longrightarrow> tryStartConversation s = s)"
proof -
  have a: "count_list (agentSent t) start_signal = (if convoStarted t then 1 else 0)
      \<and> (start_signal \<in> set (agentSent t) \<longrightarrow>
           AgentOpen \<in> set es \<and> list_ex start_with_identifier es)"
    if "run initial es = Inr t" for t
  proof -
    from run_provenance [OF that] have p: "provenance es t" .
    then have c: "count_list (agentSent t) start_signal = (if convoStarted t then 1 else 0)"
      by (simp add: provenance_def counted_def)
    have "convoStarted t" if "start_signal \<in> set (agentSent t)"
    proof (rule ccontr)
      assume "\<not> convoStarted t"
      with c have "count_list (agentSent t) start_signal = 0" by simp
      with that show False by (simp add: count_list_0_iff)
    qed
    with p c show ?thesis by (auto simp: provenance_def split: if_splits)
  qed
  have b: "(\<exists>t. run initial [CallerMessage (Parsed data), AgentOpen] = Inr t
             \<and> agentSent t = [conversation_config, start_signal])
        \<and> (\<exists>t. run initial [AgentOpen, CallerMessage (Parsed data)] = Inr t
             \<and> agentSent t = [conversation_config, start_signal])"
    if "own_property data ''event'' = Some (JStr ''start'')
        \<and> own_property data ''start'' = Some start
        \<and> own_property start ''streamSid'' = Some sid \<and> truthy sid" for data start sid
  proof -
    let ?t = "initial\<lparr>streamSid := Some sid, elevenWs := Some OPEN, twilioStarted := True,
                 elevenOpen := True, convoStarted := True,
                 agentSent := [conversation_config, start_signal]\<rparr>"
    from that have 1: "run initial [CallerMessage (Parsed data), AgentOpen] = Inr ?t"
      by (intro start_then_open) auto
    from that have 2: "run initial [AgentOpen, CallerMessage (Parsed data)] = Inr ?t"
      by (intro open_then_start) auto
    have 3: "agentSent ?t = [conversation_config, start_signal]" by simp
    from 1 2 3 show ?thesis by blast
  qed
  show ?thesis
    using a b gate_idempotent [of s] by blast
qed

subsection \<open>The second file has no gate\<close>

lemma step_part0_no_start:
  assumes "start_signal \<notin> set (agentSent a)" "step_part0 e a = Inr b"
  shows "start_signal \<notin> set (agentSent b)"
proof (cases e)
  case (AgentMessage raw)
  with assms show ?thesis by (auto dest: elevenWs_on_message_part0_agent)
next
  case (CallerMessage raw)
  with assms chunk_not_start chunk_not_start [symmetric] show ?thesis
    by (auto simp: connection_on_message_part0_def handle_stop_part0_def forward_media_part0_def
        split: parse_result.splits sum.splits if_splits)
qed (use assms config_not_start in \<open>auto simp: elevenWs_on_open_part0_def
       elevenWs_on_close_def elevenWs_on_error_def connection_on_close_part0_def
       connection_on_error_part0_def split: if_splits\<close>)

lemma part0_never_sends_start:
  "run_part0 initial es = Inr t \<Longrightarrow> start_signal \<notin> set (agentSent t)"
proof -
  assume r: "run_part0 initial es = Inr t"
  have init: "start_signal \<notin> set (agentSent initial)" by (simp add: initial_def)
  from r init step_part0_no_start show ?thesis by (rule run_part0_invariant)
qed

text \<open>
  C1. For every interleaving of the caller start frame and the agent leg's open event,
  the bridge sends the start signal \<^verbatim>\<open>{ type: "start" }\<close> to the agent leg exactly once,
  and only after both; evaluating the gate again after it has fired does nothing.
  inbound-calls.js does so: on every trace the number of start signals sent is one if the
  gate has fired and zero otherwise, a start signal is only there when the trace holds
  the open event and a caller start frame with an identifier, both orders of the two
  events send the configuration frame and then one start signal, every trace that holds
  both events, in any order and among any other frames, and nothing that closes a leg or
  erases the identifier has sent exactly one, and the gate is idempotent. The second
  bridge file does not: on every trace its handlers never pass a start signal to the
  agent leg.
\<close>

theorem start_signal_once_or_never:
  "(\<forall>t. run initial es = Inr t \<longrightarrow>
      count_list (agentSent t) start_signal = (if convoStarted t then 1 else 0)
      \<and> (start_signal \<in> set (agentSent t) \<longrightarrow>
           AgentOpen \<in> set es \<and> list_ex start_with_identifier es))
   \<and> (\<forall>data start sid.
        own_property data ''event'' = Some (JStr ''start'')
        \<and> own_property data ''start'' = Some start
        \<and> own_property start ''streamSid'' = Some sid \<and> truthy sid \<longrightarrow>
        (\<exists>t. run initial [CallerMessage (Parsed data), AgentOpen] = Inr t
             \<and> agentSent t = [conversation_config, start_signal])
        \<and> (\<exists>t. run initial [AgentOpen, CallerMessage (Parsed data)] = Inr t
             \<and> agentSent t = [conversation_config, start_signal]))
   \<and> (\<forall>t. run initial es = Inr t \<and> \<not> list_ex disturbs es
          \<and> AgentOpen \<in> set es \<and> list_ex start_with_identifier es \<longrightarrow>
          count_list (agentSent t) start_signal = 1)
   \<and> (convoStarted s \<longrightarrow> tryStartConversation s = s)
   \<and> (\<forall>t. run_part0 initial es = Inr t \<longrightarrow> start_signal \<notin> set (agentSent t))"
  using gate_fires_exactly_once [of es s] gate_fires_on_every_interleaving [of es]
    part0_never_sends_start [of es]
  by (intro conjI) blast+

theorem start_signal_once_or_never_witness:
  "run initial
     [CallerMessage (Parsed (JObj [(''event'', JStr ''start''),
                                   (''start'', JObj [(''streamSid'', JStr ''CA123'')])])),
      AgentOpen]
   = Inr (initial\<lparr>streamSid := Some (JStr ''CA123''), elevenWs := Some OPEN,
            twilioStarted := True, elevenOpen := True, convoStarted := True,
            agentSent := [conversation_config, start_signal]\<rparr>)
   \<and> count_list [conversation_config, start_signal] start_signal = 1
   \<and> tryStartConversation
       (initial\<lparr>streamSid := Some (JStr ''CA123''), elevenWs := Some OPEN,
            twilioStarted := True, elevenOpen := True, convoStarted := True,
            agentSent := [conversation_config, start_signal]\<rparr>)
     = initial\<lparr>streamSid := Some (JStr ''CA123''), elevenWs := Some OPEN,
            twilioStarted := True, elevenOpen := True, convoStarted := True,
            agentSent := [conversation_config, start_signal]\<rparr>
   \<and> run_part0 initial
     [CallerMessage (Parsed (JObj [(''event'', JStr ''start''),
                                   (''start'', JObj [(''streamSid'', JStr ''CA123'')])])),
      AgentOpen]
   = Inr (initial\<lparr>streamSid := Some (JStr ''CA123''), elevenWs := Some OPEN,
            agentSent := [conversation_config]\<rparr>)
   \<and> start_signal \<notin> set [conversation_config]"
  using start_signal_once_or_never
    [of "[CallerMessage (Parsed (JObj [(''event'', JStr ''start''),
                                   (''start'', JObj [(''streamSid'', JStr ''CA123'')])])),
      AgentOpen]"
      "initial\<lparr>streamSid := Some (JStr ''CA123''), elevenWs := Some OPEN,
            twilioStarted := True, elevenOpen := True, convoStarted := True,
            agentSent := [conversation_config, start_signal]\<rparr>"]
    config_not_start
  by (simp add: bridge_defs part0_defs)

section \<open>Agent audio to the caller leg\<close>

text \<open>
  C2. An agent \<^verbatim>\<open>audio\<close> frame that carries a payload, received while the stream
  identifier is known, makes either bridge send the caller leg exactly the envelope
  \<^verbatim>\<open>{ event: "media", streamSid, media: { payload } }\<close> with the session's identifier and
  the frame's payload value as \<^verbatim>\<open>JSON.stringify\<close> writes them, and nothing else. A value
  without a number that is not finite, so every string, is written unchanged.
\<close>

theorem audio_frame_forwarded:
  assumes ty: "own_property msg ''type'' = Some (JStr ''audio'')"
      and ae: "own_property msg ''audio_event'' = Some audio_event"
      and pl: "own_property audio_event ''audio_base_64'' = Some payload"
      and tp: "truthy payload"
      and sid: "streamSid s = Some sid"
      and ts: "truthy sid"
  shows "elevenWs_on_message (Parsed msg) s =
           Inr (s\<lparr>callerSent := callerSent s @
                     [JObj [(''event'', JStr ''media''), (''streamSid'', JSON_stringify sid),
                            (''media'', JObj [(''payload'', JSON_stringify payload)])]],
                   twilioOutboundFrames := twilioOutboundFrames s + 1\<rparr>)
         \<and> elevenWs_on_message_part0 (Parsed msg) s =
           Inr (s\<lparr>callerSent := callerSent s @
                     [JObj [(''event'', JStr ''media''), (''streamSid'', JSON_stringify sid),
                            (''media'', JObj [(''payload'', JSON_stringify payload)])]]\<rparr>)
         \<and> (written_as_is sid \<and> written_as_is payload \<longrightarrow>
              elevenWs_on_message (Parsed msg) s =
                Inr (s\<lparr>callerSent := callerSent s @
                          [JObj [(''event'', JStr ''media''), (''streamSid'', sid),
                                 (''media'', JObj [(''payload'', payload)])]],
                        twilioOutboundFrames := twilioOutboundFrames s + 1\<rparr>)
              \<and> elevenWs_on_message_part0 (Parsed msg) s =
                Inr (s\<lparr>callerSent := callerSent s @
                          [JObj [(''event'', JStr ''media''), (''streamSid'', sid),
                                 (''media'', JObj [(''payload'', payload)])]]\<rparr>))"
  using ae pl tp sid ts
  by (simp add: elevenWs_on_message_def elevenWs_on_message_part0_def read_type [OF ty]
      forward_audio_def handle_interruption_def connection_send_def twilioFrame_def
      stringify_object_def object_literal_def written_as_is_def)

theorem audio_frame_forwarded_witness:
  "elevenWs_on_message
     (Parsed (JObj [(''type'', JStr ''audio''),
                    (''audio_event'', JObj [(''audio_base_64'', JStr ''QUJD'')])]))
     (initial\<lparr>streamSid := Some (JStr ''CA123'')\<rparr>)
   = Inr (initial\<lparr>streamSid := Some (JStr ''CA123''),
            callerSent := [JObj [(''event'', JStr ''media''), (''streamSid'', JStr ''CA123''),
                                 (''media'', JObj [(''payload'', JStr ''QUJD'')])]],
            twilioOutboundFrames := 1\<rparr>)
   \<and> elevenWs_on_message_part0
     (Parsed (JObj [(''type'', JStr ''audio''),
                    (''audio_event'', JObj [(''audio_base_64'', JStr ''QUJD'')])]))
     (initial\<lparr>streamSid := Some (JStr ''CA123'')\<rparr>)
   = Inr (initial\<lparr>streamSid := Some (JStr ''CA123''),
            callerSent := [JObj [(''event'', JStr ''media''), (''streamSid'', JStr ''CA123''),
                                 (''media'', JObj [(''payload'', JStr ''QUJD'')])]]\<rparr>)"
  using audio_frame_forwarded
    [of "JObj [(''type'', JStr ''audio''),
               (''audio_event'', JObj [(''audio_base_64'', JStr ''QUJD'')])]"
        "JObj [(''audio_base_64'', JStr ''QUJD'')]" "JStr ''QUJD''"
        "initial\<lparr>streamSid := Some (JStr ''CA123'')\<rparr>" "JStr ''CA123''"]
  by (simp add: initial_def)

section \<open>Malformed frames\<close>






lemma start_frame_without_identifier:
  assumes ev: "own_property data ''event'' = Some (JStr ''start'')"
      and no: "\<not> js_truthy (opt_prop (own_property data ''start'') ''streamSid'')"
  shows "connection_on_message (Parsed data) s =
           Inr (s\<lparr>streamSid := Some JNull, twilioStarted := True\<rparr>)"
  using no
  by (simp add: connection_on_message_def read_event [OF ev] js_or_def tryStartConversation_def)




text \<open>
  The value \<^verbatim>\<open>null\<close> parses, and both files' handlers throw on it at their first
  property read; the second file also throws on a \<^verbatim>\<open>start\<close> frame without the nested
  \<^verbatim>\<open>start\<close> object, where inbound-calls.js reads it with \<^verbatim>\<open>?.\<close>.
\<close>

lemma null_frame_throws:
  "elevenWs_on_message (Parsed JNull) s = Inl TypeError"
  "connection_on_message (Parsed JNull) s = Inl TypeError"
  "elevenWs_on_message_part0 (Parsed JNull) s = Inl TypeError"
  "connection_on_message_part0 (Parsed JNull) s = Inl TypeError"
  "connection_on_message_part0 (Parsed (JObj [(''event'', JStr ''start'')])) s = Inl TypeError"
  by (simp_all add: elevenWs_on_message_def connection_on_message_def
      elevenWs_on_message_part0_def connection_on_message_part0_def read_prop_def)

section \<open>Closing\<close>

lemma step_callerCloseCalls:
  "step e a = Inr b \<Longrightarrow> callerCloseCalls b = callerCloseCalls a"
  by (cases e)
     (auto simp: elevenWs_on_open_def tryStartConversation_def elevenWs_on_message_def
        handle_interruption_def forward_audio_def connection_send_def
        connection_on_message_def handle_stop_def forward_media_def
        elevenWs_on_close_def elevenWs_on_error_def connection_on_close_def
        connection_on_error_def split: parse_result.splits sum.splits if_splits)

text \<open>The only place that closes the caller leg is the \<^verbatim>\<open>catch\<close> of the initialisation.\<close>

lemma init_failure_closes_caller:
  "callerCloseCalls (on_init_failure True s) = callerCloseCalls s + 1"
  "callerCloseCalls (on_init_failure False s) = callerCloseCalls s"
  by (simp_all add: on_init_failure_def Let_def)

lemma step_part0_callerCloseCalls:
  "step_part0 e a = Inr b \<Longrightarrow> callerCloseCalls b = callerCloseCalls a"
  by (cases e)
     (auto simp: elevenWs_on_open_part0_def elevenWs_on_message_part0_def
        handle_interruption_def connection_send_def
        connection_on_message_part0_def handle_stop_part0_def forward_media_part0_def
        elevenWs_on_close_def elevenWs_on_error_def connection_on_close_part0_def
        connection_on_error_part0_def split: parse_result.splits sum.splits if_splits)

text \<open>
  C4, as the code has it. When the caller leg closes or errors, the bridge calls
  \<^verbatim>\<open>close()\<close> on the agent leg if it is open, which starts its closing handshake. When
  the agent leg is not open, inbound-calls.js does nothing; the second file calls
  \<^verbatim>\<open>close()\<close> all the same, which leaves a closed socket closed. The agent leg's close
  and error handlers only log: on no trace of events does either file close the caller
  leg.
\<close>

theorem caller_close_closes_agent:
  "(elevenWs s = Some OPEN \<longrightarrow>
      connection_on_close s =
        s\<lparr>elevenWs := Some CLOSING, agentCloseCalls := agentCloseCalls s + 1\<rparr>
      \<and> connection_on_error s =
        s\<lparr>elevenWs := Some CLOSING, agentCloseCalls := agentCloseCalls s + 1\<rparr>
      \<and> connection_on_close_part0 s =
        s\<lparr>elevenWs := Some CLOSING, agentCloseCalls := agentCloseCalls s + 1\<rparr>
      \<and> connection_on_error_part0 s =
        s\<lparr>elevenWs := Some CLOSING, agentCloseCalls := agentCloseCalls s + 1\<rparr>)
   \<and> (elevenWs s \<noteq> Some OPEN \<longrightarrow> connection_on_close s = s \<and> connection_on_error s = s)
   \<and> (elevenWs s = Some CLOSED \<longrightarrow>
        connection_on_close_part0 s = s\<lparr>agentCloseCalls := agentCloseCalls s + 1\<rparr>
        \<and> connection_on_error_part0 s = s\<lparr>agentCloseCalls := agentCloseCalls s + 1\<rparr>)
   \<and> elevenWs_on_close s = s
   \<and> elevenWs_on_error s = s
   \<and> (\<forall>t. run initial es = Inr t \<or> run_part0 initial es = Inr t \<longrightarrow> callerCloseCalls t = 0)"
proof -
  have a: "callerCloseCalls t = 0" if "run initial es = Inr t" for t
    using that
    by (rule run_invariant [where P = "\<lambda>s. callerCloseCalls s = 0"])
       (auto simp: initial_def dest: step_callerCloseCalls)
  have b: "callerCloseCalls t = 0" if "run_part0 initial es = Inr t" for t
    using that
    by (rule run_part0_invariant [where P = "\<lambda>s. callerCloseCalls s = 0"])
       (auto simp: initial_def dest: step_part0_callerCloseCalls)
  have c: "\<forall>t. run initial es = Inr t \<or> run_part0 initial es = Inr t \<longrightarrow> callerCloseCalls t = 0"
    using a b by blast
  show ?thesis
    using c
    by (simp add: connection_on_close_def connection_on_error_def
        connection_on_close_part0_def connection_on_error_part0_def elevenWs_close_def
        elevenWs_on_close_def elevenWs_on_error_def)
qed

theorem caller_close_closes_agent_witness:
  "connection_on_close (initial\<lparr>elevenWs := Some OPEN\<rparr>)
     = initial\<lparr>elevenWs := Some CLOSING, agentCloseCalls := 1\<rparr>
   \<and> connection_on_error_part0 (initial\<lparr>elevenWs := Some OPEN\<rparr>)
     = initial\<lparr>elevenWs := Some CLOSING, agentCloseCalls := 1\<rparr>
   \<and> connection_on_close (initial\<lparr>elevenWs := Some CLOSED\<rparr>)
     = initial\<lparr>elevenWs := Some CLOSED\<rparr>
   \<and> connection_on_close_part0 (initial\<lparr>elevenWs := Some CLOSED\<rparr>)
     = initial\<lparr>elevenWs := Some CLOSED, agentCloseCalls := 1\<rparr>
   \<and> run initial [AgentOpen, CallerClosed, AgentClosed]
     = Inr (initial\<lparr>elevenWs := Some CLOSED, elevenOpen := True,
              agentSent := [conversation_config], agentCloseCalls := 1\<rparr>)
   \<and> callerCloseCalls
       (initial\<lparr>elevenWs := Some CLOSED, elevenOpen := True,
              agentSent := [conversation_config], agentCloseCalls := 1\<rparr>) = 0"
  using caller_close_closes_agent [of "initial\<lparr>elevenWs := Some OPEN\<rparr>" "[]"]
    caller_close_closes_agent
      [of "initial\<lparr>elevenWs := Some CLOSED\<rparr>" "[AgentOpen, CallerClosed, AgentClosed]"]
  by (simp add: bridge_defs)

text \<open>
  The claim as written fails when it is the agent leg that closes: after the agent leg
  has opened and closed, neither file has closed the caller leg.
\<close>

theorem agent_close_counterexample:
  "run initial [AgentOpen, AgentClosed] =
     Inr (initial\<lparr>elevenWs := Some CLOSED, elevenOpen := True,
            agentSent := [conversation_config]\<rparr>)
   \<and> run_part0 initial [AgentOpen, AgentClosed] =
     Inr (initial\<lparr>elevenWs := Some CLOSED, agentSent := [conversation_config]\<rparr>)
   \<and> callerCloseCalls
       (initial\<lparr>elevenWs := Some CLOSED, elevenOpen := True,
            agentSent := [conversation_config]\<rparr>) = 0
   \<and> callerCloseCalls
       (initial\<lparr>elevenWs := Some CLOSED, agentSent := [conversation_config]\<rparr>) = 0"
  by (simp add: initial_def elevenWs_on_open_def elevenWs_on_open_part0_def
      tryStartConversation_def elevenWs_send_def elevenWs_on_close_def)

section \<open>Caller audio to the agent leg\<close>

lemma media_dropped_when_not_open:
  assumes ev: "own_property data ''event'' = Some (JStr ''media'')"
      and no: "elevenWs s \<noteq> Some OPEN"
  shows "connection_on_message (Parsed data) s = Inr s
         \<and> connection_on_message_part0 (Parsed data) s = Inr s"
  using no
  by (simp add: connection_on_message_def connection_on_message_part0_def read_event [OF ev]
      forward_media_def handle_stop_def forward_media_part0_def handle_stop_part0_def)

lemma media_forwarded_when_open:
  assumes ev: "own_property data ''event'' = Some (JStr ''media'')"
      and op: "elevenWs s = Some OPEN"
      and me: "own_property data ''media'' = Some media"
      and pl: "own_property media ''payload'' = Some payload"
      and tp: "truthy payload"
  shows "connection_on_message (Parsed data) s =
           Inr (s\<lparr>agentSent := agentSent s @
                     [JObj [(''user_audio_chunk'', JSON_stringify payload)]],
                   twilioInboundFrames := twilioInboundFrames s + 1\<rparr>)
         \<and> connection_on_message_part0 (Parsed data) s =
           Inr (s\<lparr>agentSent := agentSent s @
                     [JObj [(''user_audio_chunk'', JSON_stringify payload)]]\<rparr>)"
  using op me pl tp
  by (simp add: connection_on_message_def connection_on_message_part0_def read_event [OF ev]
      forward_media_def handle_stop_def forward_media_part0_def handle_stop_part0_def
      elevenWs_send_def user_audio_chunk_def stringify_object_def object_literal_def)

text \<open>
  C5. A caller \<^verbatim>\<open>media\<close> frame that arrives while the agent leg is not open is dropped
  by either bridge: the session is left exactly as it was, so nothing is kept to be
  forwarded later and every continuation runs as if the frame had not come. Once the
  agent leg is open, a media frame with a payload is forwarded at once as
  \<^verbatim>\<open>{ user_audio_chunk: payload }\<close>, whatever the state of the start gate, the payload
  as \<^verbatim>\<open>JSON.stringify\<close> writes it: unchanged when it has no number that is not finite,
  so whenever it is a string.
\<close>

theorem media_dropped_or_forwarded:
  assumes ev: "own_property data ''event'' = Some (JStr ''media'')"
  shows "(elevenWs s \<noteq> Some OPEN \<longrightarrow>
            connection_on_message (Parsed data) s = Inr s
          \<and> connection_on_message_part0 (Parsed data) s = Inr s
          \<and> run s (CallerMessage (Parsed data) # es) = run s es
          \<and> run_part0 s (CallerMessage (Parsed data) # es) = run_part0 s es)
       \<and> (\<forall>media payload.
            elevenWs s = Some OPEN \<and> own_property data ''media'' = Some media
            \<and> own_property media ''payload'' = Some payload \<and> truthy payload \<longrightarrow>
            connection_on_message (Parsed data) s =
              Inr (s\<lparr>agentSent := agentSent s @
                        [JObj [(''user_audio_chunk'', JSON_stringify payload)]],
                      twilioInboundFrames := twilioInboundFrames s + 1\<rparr>)
          \<and> connection_on_message_part0 (Parsed data) s =
              Inr (s\<lparr>agentSent := agentSent s @
                        [JObj [(''user_audio_chunk'', JSON_stringify payload)]]\<rparr>))
       \<and> (\<forall>media payload.
            elevenWs s = Some OPEN \<and> own_property data ''media'' = Some media
            \<and> own_property media ''payload'' = Some payload \<and> truthy payload
            \<and> written_as_is payload \<longrightarrow>
            connection_on_message (Parsed data) s =
              Inr (s\<lparr>agentSent := agentSent s @ [JObj [(''user_audio_chunk'', payload)]],
                      twilioInboundFrames := twilioInboundFrames s + 1\<rparr>)
          \<and> connection_on_message_part0 (Parsed data) s =
              Inr (s\<lparr>agentSent := agentSent s @ [JObj [(''user_audio_chunk'', payload)]]\<rparr>))"
  using media_dropped_when_not_open [OF ev] media_forwarded_when_open [OF ev]
  by (simp add: written_as_is_def)

theorem media_dropped_or_forwarded_witness:
  "connection_on_message
     (Parsed (JObj [(''event'', JStr ''media''), (''media'', JObj [(''payload'', JStr ''AAEC'')])]))
     initial = Inr initial
   \<and> run initial
       [CallerMessage
          (Parsed (JObj [(''event'', JStr ''media''),
                         (''media'', JObj [(''payload'', JStr ''AAEC'')])])),
        AgentOpen]
     = run initial [AgentOpen]
   \<and> run initial [AgentOpen]
     = Inr (initial\<lparr>elevenWs := Some OPEN, elevenOpen := True,
              agentSent := [conversation_config]\<rparr>)
   \<and> connection_on_message
       (Parsed (JObj [(''event'', JStr ''media''), (''media'', JObj [(''payload'', JStr ''AAEC'')])]))
       (initial\<lparr>elevenWs := Some OPEN, elevenOpen := True, agentSent := [conversation_config]\<rparr>)
     = Inr (initial\<lparr>elevenWs := Some OPEN, elevenOpen := True,
              agentSent := [conversation_config, JObj [(''user_audio_chunk'', JStr ''AAEC'')]],
              twilioInboundFrames := 1\<rparr>)"
  using media_dropped_or_forwarded
      [of "JObj [(''event'', JStr ''media''), (''media'', JObj [(''payload'', JStr ''AAEC'')])]"
          initial "[AgentOpen]"]
    media_dropped_or_forwarded
      [of "JObj [(''event'', JStr ''media''), (''media'', JObj [(''payload'', JStr ''AAEC'')])]"
          "initial\<lparr>elevenWs := Some OPEN, elevenOpen := True,
                   agentSent := [conversation_config]\<rparr>" "[]"]
  by (simp add: bridge_defs)

section \<open>Frames for the caller leg name the stream\<close>















section \<open>Interruptions\<close>

text \<open>
  C7. An agent \<^verbatim>\<open>interruption\<close> frame received while the stream identifier is known
  makes either bridge send the caller leg exactly one frame,
  \<^verbatim>\<open>{ event: "clear", streamSid }\<close> with the session's identifier as \<^verbatim>\<open>JSON.stringify\<close>
  writes it, which is the identifier itself whenever it is a string; received before the
  identifier is known it produces no frame and changes nothing.
\<close>

theorem interruption_clears:
  assumes ty: "own_property msg ''type'' = Some (JStr ''interruption'')"
  shows "(\<forall>sid. streamSid s = Some sid \<and> truthy sid \<longrightarrow>
            elevenWs_on_message (Parsed msg) s =
              Inr (s\<lparr>callerSent := callerSent s @
                        [JObj [(''event'', JStr ''clear''),
                               (''streamSid'', JSON_stringify sid)]]\<rparr>)
          \<and> elevenWs_on_message_part0 (Parsed msg) s =
              Inr (s\<lparr>callerSent := callerSent s @
                        [JObj [(''event'', JStr ''clear''),
                               (''streamSid'', JSON_stringify sid)]]\<rparr>))
       \<and> (\<forall>sid. streamSid s = Some sid \<and> truthy sid \<and> written_as_is sid \<longrightarrow>
            elevenWs_on_message (Parsed msg) s =
              Inr (s\<lparr>callerSent := callerSent s @
                        [JObj [(''event'', JStr ''clear''), (''streamSid'', sid)]]\<rparr>)
          \<and> elevenWs_on_message_part0 (Parsed msg) s =
              Inr (s\<lparr>callerSent := callerSent s @
                        [JObj [(''event'', JStr ''clear''), (''streamSid'', sid)]]\<rparr>))
       \<and> (\<not> js_truthy (streamSid s) \<longrightarrow>
            elevenWs_on_message (Parsed msg) s = Inr s
          \<and> elevenWs_on_message_part0 (Parsed msg) s = Inr s)"
  by (simp add: elevenWs_on_message_def elevenWs_on_message_part0_def read_type [OF ty]
      handle_interruption_def connection_send_def clearFrame_def stringify_object_def
      object_literal_def written_as_is_def)

theorem interruption_clears_witness:
  "elevenWs_on_message (Parsed (JObj [(''type'', JStr ''interruption'')]))
     (initial\<lparr>streamSid := Some (JStr ''CA123'')\<rparr>)
   = Inr (initial\<lparr>streamSid := Some (JStr ''CA123''),
            callerSent := [JObj [(''event'', JStr ''clear''), (''streamSid'', JStr ''CA123'')]]\<rparr>)
   \<and> elevenWs_on_message_part0 (Parsed (JObj [(''type'', JStr ''interruption'')]))
     (initial\<lparr>streamSid := Some (JStr ''CA123'')\<rparr>)
   = Inr (initial\<lparr>streamSid := Some (JStr ''CA123''),
            callerSent := [JObj [(''event'', JStr ''clear''), (''streamSid'', JStr ''CA123'')]]\<rparr>)
   \<and> elevenWs_on_message (Parsed (JObj [(''type'', JStr ''interruption'')])) initial
   = Inr initial
   \<and> elevenWs_on_message_part0 (Parsed (JObj [(''type'', JStr ''interruption'')])) initial
   = Inr initial"
  using interruption_clears
      [of "JObj [(''type'', JStr ''interruption'')]"
          "initial\<lparr>streamSid := Some (JStr ''CA123'')\<rparr>"]
    interruption_clears [of "JObj [(''type'', JStr ''interruption'')]" initial]
  by (simp add: initial_def)

section \<open>The configuration frame comes first\<close>

lemma tryStart_config_first: "config_first s \<Longrightarrow> config_first (tryStartConversation s)"
  by (cases "agentSent s") (auto simp: tryStartConversation_def config_first_def)

lemma open_config_first:
  "config_first s \<Longrightarrow> config_first (elevenWs_on_open (s\<lparr>elevenWs := Some OPEN\<rparr>))"
  unfolding elevenWs_on_open_def
  by (rule tryStart_config_first) (cases "agentSent s"; simp add: config_first_def)

lemma open_part0_config_first:
  "config_first s \<Longrightarrow> config_first (elevenWs_on_open_part0 (s\<lparr>elevenWs := Some OPEN\<rparr>))"
  by (cases "agentSent s"; simp add: elevenWs_on_open_part0_def config_first_def)

lemma close_config_first: "config_first s \<Longrightarrow> config_first (elevenWs_close s)"
  by (cases "agentSent s"; cases "elevenWs s"; simp add: elevenWs_close_def config_first_def)
     (metis readyState.distinct ws_close.elims)

lemma media_config_first: "config_first s \<Longrightarrow> config_first (forward_media ev p s)"
  by (cases "agentSent s") (auto simp: forward_media_def elevenWs_send_def config_first_def)

lemma media_part0_config_first: "config_first s \<Longrightarrow> config_first (forward_media_part0 ev p s)"
  by (cases "agentSent s") (auto simp: forward_media_part0_def elevenWs_send_def config_first_def)

lemma stop_config_first: "config_first s \<Longrightarrow> config_first (handle_stop ev s)"
  by (simp add: handle_stop_def close_config_first)

lemma stop_part0_config_first: "config_first s \<Longrightarrow> config_first (handle_stop_part0 ev s)"
  by (simp add: handle_stop_part0_def close_config_first)

lemma config_first_frame:
  "agentSent t = agentSent s \<Longrightarrow> elevenWs t = elevenWs s \<Longrightarrow> config_first s \<Longrightarrow> config_first t"
  by (simp add: config_first_def)

lemma connection_on_message_config_first:
  assumes "config_first s" "connection_on_message raw s = Inr t"
  shows "config_first t"
proof -
  have "config_first (tryStartConversation (s\<lparr>streamSid := v, twilioStarted := True\<rparr>))" for v
    using assms(1) by (intro tryStart_config_first) (simp add: config_first_def)
  with assms show ?thesis
    by (auto simp: connection_on_message_def stop_config_first media_config_first
        split: parse_result.splits sum.splits if_splits)
qed

lemma connection_on_message_part0_config_first:
  assumes "config_first s" "connection_on_message_part0 raw s = Inr t"
  shows "config_first t"
proof -
  have "config_first (s\<lparr>streamSid := v\<rparr>)" for v
    using assms(1) by (simp add: config_first_def)
  with assms show ?thesis
    by (auto simp: connection_on_message_part0_def stop_part0_config_first
        media_part0_config_first split: parse_result.splits sum.splits if_splits)
qed

lemma step_config_first:
  assumes "config_first a" "step e a = Inr b"
  shows "config_first b"
proof (cases e)
  case AgentOpen
  with assms show ?thesis by (auto simp: open_config_first)
next
  case (AgentMessage raw)
  with assms show ?thesis by (auto dest!: elevenWs_on_message_agent intro: config_first_frame)
next
  case (CallerMessage raw)
  with assms show ?thesis by (auto intro: connection_on_message_config_first)
next
  case AgentClosed
  with assms show ?thesis
    by (cases "agentSent a") (auto simp: elevenWs_on_close_def config_first_def)
next
  case AgentError
  with assms show ?thesis
    by (cases "agentSent a") (auto simp: elevenWs_on_error_def config_first_def)
next
  case CallerClosed
  with assms show ?thesis by (auto simp: connection_on_close_def close_config_first)
next
  case CallerError
  with assms show ?thesis by (auto simp: connection_on_error_def close_config_first)
qed

lemma step_part0_config_first:
  assumes "config_first a" "step_part0 e a = Inr b"
  shows "config_first b"
proof (cases e)
  case AgentOpen
  with assms show ?thesis by (auto simp: open_part0_config_first)
next
  case (AgentMessage raw)
  with assms show ?thesis
    by (auto dest!: elevenWs_on_message_part0_agent intro: config_first_frame)
next
  case (CallerMessage raw)
  with assms show ?thesis by (auto intro: connection_on_message_part0_config_first)
next
  case AgentClosed
  with assms show ?thesis
    by (cases "agentSent a") (auto simp: elevenWs_on_close_def config_first_def)
next
  case AgentError
  with assms show ?thesis
    by (cases "agentSent a") (auto simp: elevenWs_on_error_def config_first_def)
next
  case CallerClosed
  with assms show ?thesis by (auto simp: connection_on_close_part0_def close_config_first)
next
  case CallerError
  with assms show ?thesis by (auto simp: connection_on_error_part0_def close_config_first)
qed

lemma open_sends_config:
  "agentSent (elevenWs_on_open s) =
     agentSent s @ conversation_config #
       (if \<not> convoStarted s \<and> twilioStarted s \<and> js_truthy (streamSid s) \<and> elevenWs s = Some OPEN
        then [start_signal] else [])"
  by (simp add: elevenWs_on_open_def tryStartConversation_def)

text \<open>
  C8. On every open event of the agent leg either bridge sends that leg one
  configuration frame of the shape \<^verbatim>\<open>{ type: "conversation_config", conversation_config:
  { audio: { output: { encoding, sample_rate } } } }\<close>, here \<^verbatim>\<open>mulaw\<close> at \<^verbatim>\<open>8000\<close>, as the
  first thing the handler sends: in inbound-calls.js a start signal can only follow it.
  On every trace of events the first frame the agent leg was ever sent is the
  configuration frame, so no start signal and no audio chunk precedes it.
\<close>

theorem config_frame_sent_first:
  "conversation_config =
     JObj [(''type'', JStr ''conversation_config''),
           (''conversation_config'',
            JObj [(''audio'',
              JObj [(''output'',
                JObj [(''encoding'', JStr ''mulaw''), (''sample_rate'', JNum (Finite 8000))])])])]
   \<and> agentSent (elevenWs_on_open s) =
       agentSent s @ conversation_config #
         (if \<not> convoStarted s \<and> twilioStarted s \<and> js_truthy (streamSid s)
             \<and> elevenWs s = Some OPEN
          then [start_signal] else [])
   \<and> agentSent (elevenWs_on_open_part0 s) = agentSent s @ [conversation_config]
   \<and> (\<forall>t. run initial es = Inr t \<or> run_part0 initial es = Inr t \<longrightarrow>
         agentSent t = [] \<or> hd (agentSent t) = conversation_config)"
proof -
  have init: "config_first initial"
    by (simp add: initial_def config_first_def)
  have hd: "agentSent t = [] \<or> hd (agentSent t) = conversation_config" if "config_first t" for t
    using that by (cases "agentSent t") (simp_all add: config_first_def)
  have a: "config_first t" if "run initial es = Inr t" for t
    using that init step_config_first by (rule run_invariant)
  have b: "config_first t" if "run_part0 initial es = Inr t" for t
    using that init step_part0_config_first by (rule run_part0_invariant)
  have shape: "conversation_config =
     JObj [(''type'', JStr ''conversation_config''),
           (''conversation_config'',
            JObj [(''audio'',
              JObj [(''output'',
                JObj [(''encoding'', JStr ''mulaw''), (''sample_rate'', JNum (Finite 8000))])])])]"
    by (simp add: conversation_config_def stringify_object_def object_literal_def)
  have p0: "agentSent (elevenWs_on_open_part0 s) = agentSent s @ [conversation_config]"
    by (simp add: elevenWs_on_open_part0_def)
  from a b hd have tr: "\<forall>t. run initial es = Inr t \<or> run_part0 initial es = Inr t \<longrightarrow>
         agentSent t = [] \<or> hd (agentSent t) = conversation_config"
    by blast
  show ?thesis
    using shape open_sends_config [of s] p0 tr by (intro conjI)
qed

theorem config_frame_sent_first_witness:
  "agentSent (elevenWs_on_open
      (initial\<lparr>streamSid := Some (JStr ''CA123''), twilioStarted := True,
               elevenWs := Some OPEN\<rparr>))
     = [conversation_config, start_signal]
   \<and> run initial
       [CallerMessage (Parsed (JObj [(''event'', JStr ''media''),
                                     (''media'', JObj [(''payload'', JStr ''AAEC'')])])),
        AgentOpen,
        CallerMessage (Parsed (JObj [(''event'', JStr ''media''),
                                     (''media'', JObj [(''payload'', JStr ''AAEC'')])]))]
     = Inr (initial\<lparr>elevenWs := Some OPEN, elevenOpen := True, twilioInboundFrames := 1,
              agentSent := [conversation_config, user_audio_chunk (Some (JStr ''AAEC''))]\<rparr>)
   \<and> hd (agentSent
        (initial\<lparr>elevenWs := Some OPEN, elevenOpen := True, twilioInboundFrames := 1,
              agentSent := [conversation_config, user_audio_chunk (Some (JStr ''AAEC''))]\<rparr>))
     = conversation_config"
  using config_frame_sent_first
      [of "initial\<lparr>streamSid := Some (JStr ''CA123''), twilioStarted := True,
                   elevenWs := Some OPEN\<rparr>"
          "[CallerMessage (Parsed (JObj [(''event'', JStr ''media''),
                                     (''media'', JObj [(''payload'', JStr ''AAEC'')])])),
        AgentOpen,
        CallerMessage (Parsed (JObj [(''event'', JStr ''media''),
                                     (''media'', JObj [(''payload'', JStr ''AAEC'')])]))]"]
  by (simp add: bridge_defs)

section \<open>The credential request escapes the identifier\<close>

lemma hexValue_hexDigit: "n < 16 \<Longrightarrow> hexValue (hexDigit n) = n"
proof -
  assume "n < 16"
  then have "n \<in> set [0..<16]" by simp
  then show ?thesis
    unfolding upt_rec [of 0 16]
    by (simp add: upt_rec hexDigit_def hexValue_def) (elim disjE; simp)
qed

lemma percent_not_unreserved: "\<not> uriUnreserved (CHR ''%'')"
  by (simp add: uriUnreserved_def)

lemma percent_decode_plain:
  "c \<noteq> CHR ''%'' \<Longrightarrow> percent_decode (c # cs) = c # percent_decode cs"
  by (cases cs rule: percent_decode.cases) auto

lemma byte_of_nibbles:
  "char_of (16 * hexValue (hexDigit (of_char c div 16))
              + hexValue (hexDigit (of_char c mod 16))) = c"
proof -
  have "(of_char c :: nat) < 256" by (rule nat_of_char_less_256)
  then have "(of_char c :: nat) div 16 < 16" by arith
  then show ?thesis by (simp add: hexValue_hexDigit)
qed

lemma percent_decode_encode: "percent_decode (encodeURIComponent s) = s"
proof (induction s)
  case Nil
  then show ?case by simp
next
  case (Cons c s)
  show ?case
  proof (cases "uriUnreserved c")
    case True
    then have "c \<noteq> CHR ''%''" using percent_not_unreserved by auto
    with True Cons show ?thesis by (simp add: percent_decode_plain)
  next
    case False
    with Cons show ?thesis by (simp add: byte_of_nibbles)
  qed
qed

lemma encode_length:
  "length (encodeURIComponent s) = length s + 2 * length (filter (\<lambda>c. \<not> uriUnreserved c) s)"
  by (induction s) auto

lemma encode_identity: "list_all uriUnreserved s \<Longrightarrow> encodeURIComponent s = s"
  by (induction s) auto

lemma encode_changes: "\<not> list_all uriUnreserved s \<Longrightarrow> encodeURIComponent s \<noteq> s"
proof
  assume a: "\<not> list_all uriUnreserved s" and e: "encodeURIComponent s = s"
  from a have "filter (\<lambda>c. \<not> uriUnreserved c) s \<noteq> []"
    by (auto simp: list_all_iff filter_empty_conv)
  then have "length s < length (encodeURIComponent s)"
    by (simp add: encode_length)
  with e show False by simp
qed

lemma encoded_request:
  "getSignedUrl_request agent_id = signed_url_endpoint @ encodeURIComponent agent_id
   \<and> percent_decode (drop (length signed_url_endpoint) (getSignedUrl_request agent_id))
       = agent_id"
  by (simp add: getSignedUrl_request_def percent_decode_encode)

lemma raw_request:
  "getSignedUrl_request_part0 agent_id = signed_url_endpoint @ agent_id
   \<and> (getSignedUrl_request_part0 agent_id = signed_url_endpoint @ encodeURIComponent agent_id
        \<longleftrightarrow> list_all uriUnreserved agent_id)"
proof -
  have "agent_id = encodeURIComponent agent_id \<longleftrightarrow> list_all uriUnreserved agent_id"
    using encode_identity [of agent_id] encode_changes [of agent_id] by metis
  then show ?thesis
    by (simp add: getSignedUrl_request_part0_def)
qed

text \<open>
  C9. The credential request escapes the agent identifier in its query string.
  In inbound-calls.js the query parameter of the request address is the escaped
  identifier, and decoding it gives the identifier back. The second file puts the
  identifier into the address as it is: its query parameter is the escaped identifier
  only when the identifier has no character that needs escaping.
\<close>

theorem request_identifier_escaping:
  "getSignedUrl_request agent_id = signed_url_endpoint @ encodeURIComponent agent_id
   \<and> percent_decode (drop (length signed_url_endpoint) (getSignedUrl_request agent_id))
       = agent_id
   \<and> getSignedUrl_request_part0 agent_id = signed_url_endpoint @ agent_id
   \<and> (getSignedUrl_request_part0 agent_id = signed_url_endpoint @ encodeURIComponent agent_id
        \<longleftrightarrow> list_all uriUnreserved agent_id)"
  using encoded_request [of agent_id] raw_request [of agent_id] by (intro conjI) blast+

theorem request_identifier_escaping_witness:
  "getSignedUrl_request ''a b&c'' = signed_url_endpoint @ ''a%20b%26c''
   \<and> percent_decode ''a%20b%26c'' = ''a b&c''
   \<and> getSignedUrl_request_part0 ''a b&c'' = signed_url_endpoint @ ''a b&c''
   \<and> getSignedUrl_request_part0 ''a b&c'' \<noteq> signed_url_endpoint @ encodeURIComponent ''a b&c''
   \<and> getSignedUrl_request_part0 ''agent_1'' = getSignedUrl_request ''agent_1''"
  using request_identifier_escaping [of "''a b&c''"] request_identifier_escaping [of "''agent_1''"]
  by (simp add: getSignedUrl_request_def uriUnreserved_def hexDigit_def hexValue_def)

section \<open>A start frame without an identifier\<close>

lemma gate_closed_without_identifier:
  "\<not> js_truthy (streamSid s) \<Longrightarrow> tryStartConversation s = s"
  by (simp add: tryStartConversation_def)

lemma tryStart_count:
  "count_list (agentSent (tryStartConversation s)) start_signal \<noteq>
     count_list (agentSent s) start_signal \<Longrightarrow> js_truthy (streamSid s)"
  by (auto simp: tryStartConversation_def split: if_splits)

lemma tryStart_count_from:
  assumes "count_list (agentSent (tryStartConversation m)) start_signal \<noteq>
             count_list (agentSent a) start_signal"
      and "agentSent m = agentSent a"
  shows "js_truthy (streamSid m)"
  using assms tryStart_count [of m] by simp

lemma step_start_needs_identifier:
  assumes "step e a = Inr b"
      and "count_list (agentSent b) start_signal \<noteq> count_list (agentSent a) start_signal"
  shows "js_truthy (streamSid b)"
proof (cases e)
  case AgentOpen
  let ?m = "elevenWs_send conversation_config (a\<lparr>elevenWs := Some OPEN, elevenOpen := True\<rparr>)"
  have b: "b = tryStartConversation ?m"
    using AgentOpen assms(1) by (simp add: elevenWs_on_open_def)
  have "count_list (agentSent ?m) start_signal = count_list (agentSent a) start_signal"
    using config_not_start by simp
  with assms(2) b
  have "count_list (agentSent (tryStartConversation ?m)) start_signal
          \<noteq> count_list (agentSent ?m) start_signal"
    by simp
  from tryStart_count [OF this] b show ?thesis by simp
next
  case (AgentMessage raw)
  with assms show ?thesis by (auto dest: elevenWs_on_message_agent)
next
  case (CallerMessage raw)
  show ?thesis
  proof (cases raw)
    case SyntaxError
    with CallerMessage assms show ?thesis by (simp add: connection_on_message_def)
  next
    case (Parsed data)
    show ?thesis
    proof (cases "data = JNull")
      case True
      with Parsed CallerMessage assms show ?thesis
        by (simp add: connection_on_message_def read_prop_null)
    next
      case False
      with Parsed CallerMessage assms chunk_not_start show ?thesis
        by (auto simp: connection_on_message_def read_prop_not_null
            handle_stop_def forward_media_def
            dest!: tryStart_count_from split: if_splits)
    qed
  qed
qed (use assms in \<open>auto simp: elevenWs_on_close_def elevenWs_on_error_def
       connection_on_close_def connection_on_error_def split: if_splits\<close>)

lemma step_keeps_identifier:
  assumes "step e a = Inr b" "\<not> start_without_identifier e" "js_truthy (streamSid a)"
  shows "js_truthy (streamSid b)"
proof (cases e)
  case AgentOpen
  with assms show ?thesis by (auto simp: elevenWs_on_open_def)
next
  case (AgentMessage raw)
  with assms show ?thesis by (auto dest: elevenWs_on_message_convo)
next
  case (CallerMessage raw)
  show ?thesis
  proof (cases raw)
    case SyntaxError
    with CallerMessage assms show ?thesis by (simp add: connection_on_message_def)
  next
    case (Parsed data)
    show ?thesis
    proof (cases "data = JNull")
      case True
      with Parsed CallerMessage assms show ?thesis
        by (simp add: connection_on_message_def read_prop_null)
    next
      case False
      with Parsed CallerMessage assms show ?thesis
        by (auto simp: connection_on_message_def read_prop_not_null js_or_def
            split: if_splits)
    qed
  qed
qed (use assms in \<open>auto simp: elevenWs_on_close_def elevenWs_on_error_def
       connection_on_close_def connection_on_error_def split: if_splits\<close>)

lemma step_gate_invariant:
  assumes "gate_invariant a" "\<not> start_without_identifier e" "step e a = Inr b"
  shows "gate_invariant b"
proof (cases "convoStarted b")
  case False
  then show ?thesis by (simp add: gate_invariant_def)
next
  case True
  from step_convoStarted [OF assms(3) True] show ?thesis
  proof
    assume "convoStarted a"
    with assms(1) have "js_truthy (streamSid a)" by (simp add: gate_invariant_def)
    from step_keeps_identifier [OF assms(3) assms(2) this] show ?thesis
      by (simp add: gate_invariant_def)
  next
    assume "twilioStarted b \<and> js_truthy (streamSid b) \<and> elevenOpen b"
    then show ?thesis by (simp add: gate_invariant_def)
  qed
qed

text \<open>
  C10, as the code has it. A caller \<^verbatim>\<open>start\<close> frame whose nested stream identifier is
  absent or empty sets caller-started and records the identifier as \<^verbatim>\<open>null\<close>; while the
  recorded identifier is \<^verbatim>\<open>null\<close> an evaluation of the gate does nothing; a step that
  sends a start signal ends with a recorded identifier that is not \<^verbatim>\<open>null\<close>; and
  conversation-started implies identifier-present in every state reached by events among
  which no caller \<^verbatim>\<open>start\<close> frame lacks its identifier.
\<close>

theorem start_signal_needs_identifier:
  "(own_property data ''event'' = Some (JStr ''start'')
      \<and> \<not> js_truthy (opt_prop (own_property data ''start'') ''streamSid'') \<longrightarrow>
      connection_on_message (Parsed data) s =
        Inr (s\<lparr>streamSid := Some JNull, twilioStarted := True\<rparr>))
   \<and> (\<not> js_truthy (streamSid s) \<longrightarrow> tryStartConversation s = s)
   \<and> (\<forall>b. step e s = Inr b
          \<and> count_list (agentSent b) start_signal \<noteq> count_list (agentSent s) start_signal \<longrightarrow>
          js_truthy (streamSid b) \<and> streamSid b \<noteq> Some JNull)
   \<and> (\<forall>t. run initial es = Inr t \<and> \<not> list_ex start_without_identifier es \<longrightarrow>
          gate_invariant t)"
proof -
  have init: "gate_invariant initial" by (simp add: gate_invariant_def initial_def)
  have inv: "gate_invariant t"
    if "run initial es = Inr t" "\<not> list_ex start_without_identifier es" for t
    using that(1) init that(2) step_gate_invariant
    by (rule run_invariant_events)
  have nn: "streamSid b \<noteq> Some JNull" if "js_truthy (streamSid b)" for b
    using that by auto
  show ?thesis
    using start_frame_without_identifier [of data s] gate_closed_without_identifier [of s]
      step_start_needs_identifier [of e s] inv nn
    by blast
qed

theorem start_signal_needs_identifier_witness:
  "connection_on_message (Parsed (JObj [(''event'', JStr ''start''), (''start'', JObj [])]))
     (initial\<lparr>elevenWs := Some OPEN, elevenOpen := True, agentSent := [conversation_config]\<rparr>)
   = Inr (initial\<lparr>elevenWs := Some OPEN, elevenOpen := True,
            agentSent := [conversation_config], twilioStarted := True\<rparr>)
   \<and> tryStartConversation
       (initial\<lparr>elevenWs := Some OPEN, elevenOpen := True,
            agentSent := [conversation_config], twilioStarted := True\<rparr>)
     = initial\<lparr>elevenWs := Some OPEN, elevenOpen := True,
            agentSent := [conversation_config], twilioStarted := True\<rparr>
   \<and> step (CallerMessage (Parsed (JObj [(''event'', JStr ''start''),
                                        (''start'', JObj [(''streamSid'', JStr ''CA123'')])])))
       (initial\<lparr>elevenWs := Some OPEN, elevenOpen := True,
            agentSent := [conversation_config], twilioStarted := True\<rparr>)
     = Inr (initial\<lparr>streamSid := Some (JStr ''CA123''), elevenWs := Some OPEN,
              elevenOpen := True, twilioStarted := True, convoStarted := True,
              agentSent := [conversation_config, start_signal]\<rparr>)
   \<and> run initial
       [AgentOpen,
        CallerMessage (Parsed (JObj [(''event'', JStr ''start''),
                                     (''start'', JObj [(''streamSid'', JStr ''CA123'')])]))]
     = Inr (initial\<lparr>streamSid := Some (JStr ''CA123''), elevenWs := Some OPEN,
              elevenOpen := True, twilioStarted := True, convoStarted := True,
              agentSent := [conversation_config, start_signal]\<rparr>)
   \<and> gate_invariant
       (initial\<lparr>streamSid := Some (JStr ''CA123''), elevenWs := Some OPEN,
              elevenOpen := True, twilioStarted := True, convoStarted := True,
              agentSent := [conversation_config, start_signal]\<rparr>)"
  using start_signal_needs_identifier
      [of "JObj [(''event'', JStr ''start''), (''start'', JObj [])]"
          "initial\<lparr>elevenWs := Some OPEN, elevenOpen := True,
                   agentSent := [conversation_config]\<rparr>"
          "CallerClosed" "[]"]
    start_signal_needs_identifier
      [of "JNull"
          "initial\<lparr>elevenWs := Some OPEN, elevenOpen := True,
                   agentSent := [conversation_config], twilioStarted := True\<rparr>"
          "CallerMessage (Parsed (JObj [(''event'', JStr ''start''),
                                        (''start'', JObj [(''streamSid'', JStr ''CA123'')])]))"
          "[AgentOpen,
            CallerMessage (Parsed (JObj [(''event'', JStr ''start''),
                                     (''start'', JObj [(''streamSid'', JStr ''CA123'')])]))]"]
  by (simp add: bridge_defs gate_invariant_def)

text \<open>
  The claim as written states the implication as an invariant of the session. It is not
  one: after the gate has fired, a second caller \<^verbatim>\<open>start\<close> frame without an identifier
  resets the recorded identifier to \<^verbatim>\<open>null\<close> while conversation-started stays true.
\<close>

theorem identifier_reset_counterexample:
  "run initial
     [AgentOpen,
      CallerMessage (Parsed (JObj [(''event'', JStr ''start''),
                                   (''start'', JObj [(''streamSid'', JStr ''CA123'')])])),
      CallerMessage (Parsed (JObj [(''event'', JStr ''start'')]))]
   = Inr (initial\<lparr>streamSid := Some JNull, elevenWs := Some OPEN, twilioStarted := True,
            elevenOpen := True, convoStarted := True,
            agentSent := [conversation_config, start_signal]\<rparr>)
   \<and> \<not> gate_invariant
         (initial\<lparr>streamSid := Some JNull, elevenWs := Some OPEN, twilioStarted := True,
            elevenOpen := True, convoStarted := True,
            agentSent := [conversation_config, start_signal]\<rparr>)"
  by (simp add: initial_def elevenWs_on_open_def tryStartConversation_def elevenWs_send_def
      connection_on_message_def read_prop_def js_or_def gate_invariant_def)

end
